theory Spec2Isabelle
  imports Main "HOL-Library.Word"
begin

unbundle bit_operations_syntax

section \<open>Data model (src/types/index.ts)\<close>

text \<open>
  Strings are lists of code units, read as ASCII text: the word lists, the keys of the
  on-screen keyboard and the keys accepted from the physical keyboard are all ASCII
  letters.  JavaScript numbers that hold counters are mathematical integers.
\<close>

datatype WordLength = Five | Six

fun wordLengthNum :: "WordLength \<Rightarrow> nat" where
  "wordLengthNum Five = 5"
| "wordLengthNum Six = 6"

datatype GameMode = Daily | Unlimited

datatype Difficulty = Normal | Hard

datatype LetterStatus = Correct | Present | Absent | Empty

record LetterFeedback =
  letter :: string
  status :: LetterStatus

datatype GameStatus = Playing | Won | Lost

record Guess =
  guessWord :: string
  feedback :: "LetterFeedback list"

record GameState =
  secretWord :: string
  guesses :: "Guess list"
  currentGuess :: string
  gameStatus :: GameStatus
  wordLength :: WordLength
  gameMode :: GameMode
  difficulty :: Difficulty
  maxAttempts :: nat

record HintSummary =
  lettersInWord :: nat
  correctPosition :: nat

record GameStats =
  gamesPlayed :: int
  gamesWon :: int
  currentStreak :: int
  bestStreak :: int
  guessDistribution :: "nat \<rightharpoonup> int"

section \<open>Strings and arrays of the host language\<close>

definition lowerChar :: "char \<Rightarrow> char" where
  "lowerChar c = (let n = (of_char c :: nat) in if 65 \<le> n \<and> n \<le> 90 then char_of (n + 32) else c)"

definition upperChar :: "char \<Rightarrow> char" where
  "upperChar c = (let n = (of_char c :: nat) in if 97 \<le> n \<and> n \<le> 122 then char_of (n - 32) else c)"

definition toLowerCase :: "string \<Rightarrow> string" where
  "toLowerCase s = map lowerChar s"

definition toUpperCase :: "string \<Rightarrow> string" where
  "toUpperCase s = map upperChar s"

definition isWhiteSpace :: "char \<Rightarrow> bool" where
  "isWhiteSpace c = (let n = (of_char c :: nat) in (9 \<le> n \<and> n \<le> 13) \<or> n = 32)"

definition trim :: "string \<Rightarrow> string" where
  "trim s = rev (dropWhile isWhiteSpace (rev (dropWhile isWhiteSpace s)))"

definition isLowerAlpha :: "char \<Rightarrow> bool" where
  "isLowerAlpha c = (let n = (of_char c :: nat) in 97 \<le> n \<and> n \<le> 122)"

text \<open>\<open>s[i]\<close>: the code unit at an index, \<open>undefined\<close> (here \<open>None\<close>) out of range.\<close>

definition charAt :: "string \<Rightarrow> nat \<Rightarrow> char option" where
  "charAt s i = (if i < length s then Some (s ! i) else None)"

text \<open>
  An array that is filled by index assignment: a slot never written is a hole
  (\<open>None\<close>), and writing past the end extends the array, leaving holes in between.
\<close>

type_synonym 'a js_array = "'a option list"

definition arr_get :: "'a js_array \<Rightarrow> nat \<Rightarrow> 'a option" where
  "arr_get xs i = (if i < length xs then xs ! i else None)"

definition arr_set :: "'a js_array \<Rightarrow> nat \<Rightarrow> 'a \<Rightarrow> 'a js_array" where
  "arr_set xs i v =
     (if i < length xs then xs[i := Some v]
      else xs @ replicate (i - length xs) None @ [Some v])"

section \<open>The evaluator (src/utils/gameLogic.ts)\<close>

subsection \<open>getGuessFeedback\<close>

text \<open>
  \<open>secretCharCounts\<close> is a dictionary from single characters to numbers.  A missing
  entry reads as \<open>undefined\<close>.  Decrementing a missing entry would store \<open>NaN\<close>, which
  every test of the function (\<open>|| 0\<close>, \<open>&&\<close>, \<open>> 0\<close>) treats like a missing entry, so it
  is kept as \<open>None\<close>.
\<close>

type_synonym charCounts = "char \<rightharpoonup> int"

definition orZero :: "int option \<Rightarrow> int" where
  "orZero x = (case x of None \<Rightarrow> 0 | Some k \<Rightarrow> k)"

definition countStep :: "char \<Rightarrow> charCounts \<Rightarrow> charCounts" where
  "countStep c counts = counts(c \<mapsto> orZero (counts c) + 1)"

definition decrement :: "charCounts \<Rightarrow> char \<Rightarrow> charCounts" where
  "decrement counts c = counts(c := map_option (\<lambda>k. k - 1) (counts c))"

definition positiveCount :: "charCounts \<Rightarrow> char \<Rightarrow> bool" where
  "positiveCount counts c = (case counts c of None \<Rightarrow> False | Some k \<Rightarrow> k \<noteq> 0 \<and> k > 0)"

definition pass1Step ::
  "string \<Rightarrow> string \<Rightarrow> nat \<Rightarrow>
   LetterFeedback js_array \<times> nat list \<times> charCounts \<Rightarrow>
   LetterFeedback js_array \<times> nat list \<times> charCounts" where
  "pass1Step guessChars secretChars i st =
     (case st of (fb, exactMatchedIndices, counts) \<Rightarrow>
        if Some (guessChars ! i) = charAt secretChars i
        then (arr_set fb i \<lparr>letter = [guessChars ! i], status = Correct\<rparr>,
              exactMatchedIndices @ [i],
              decrement counts (guessChars ! i))
        else (fb, exactMatchedIndices, counts))"

definition pass2Step ::
  "string \<Rightarrow> nat list \<Rightarrow> nat \<Rightarrow>
   LetterFeedback js_array \<times> charCounts \<Rightarrow> LetterFeedback js_array \<times> charCounts" where
  "pass2Step guessChars exactMatchedIndices i st =
     (case st of (fb, counts) \<Rightarrow>
        if i \<in> set exactMatchedIndices then (fb, counts)
        else
          let c = guessChars ! i in
          if positiveCount counts c
          then (arr_set fb i \<lparr>letter = [c], status = Present\<rparr>, decrement counts c)
          else (arr_set fb i \<lparr>letter = [c], status = Absent\<rparr>, counts))"

definition fillStep :: "string \<Rightarrow> nat \<Rightarrow> LetterFeedback js_array \<Rightarrow> LetterFeedback js_array" where
  "fillStep guessChars i fb =
     (if arr_get fb i = None then arr_set fb i \<lparr>letter = [guessChars ! i], status = Absent\<rparr>
      else fb)"

definition getGuessFeedback :: "string \<Rightarrow> string \<Rightarrow> LetterFeedback js_array" where
  "getGuessFeedback guess secret =
     (let guessChars = toLowerCase guess;
          secretChars = toLowerCase secret;
          n = length guessChars;
          counts0 = fold countStep secretChars Map.empty;
          (fb1, exactMatchedIndices, counts1) =
             fold (pass1Step guessChars secretChars) [0..<n] ([], [], counts0);
          (fb2, counts2) = fold (pass2Step guessChars exactMatchedIndices) [0..<n] (fb1, counts1)
      in fold (fillStep guessChars) [0..<n] fb2)"


text \<open>
  The algorithm as the specification words it: a multiset of the secret's letters, a first
  pass over the exact matches that takes them out of the multiset, and a second pass, left
  to right, over the other positions.
\<close>

fun specPass1 :: "(char \<times> char) list \<Rightarrow> (char \<Rightarrow> int) \<Rightarrow> (char \<Rightarrow> int)" where
  "specPass1 [] remaining = remaining"
| "specPass1 ((g, s) # rest) remaining =
     specPass1 rest (if g = s then remaining(g := remaining g - 1) else remaining)"

fun specPass2 :: "(char \<times> char) list \<Rightarrow> (char \<Rightarrow> int) \<Rightarrow> LetterFeedback list" where
  "specPass2 [] remaining = []"
| "specPass2 ((g, s) # rest) remaining =
     (if g = s then \<lparr>letter = [g], status = Correct\<rparr> # specPass2 rest remaining
      else if remaining g > 0
      then \<lparr>letter = [g], status = Present\<rparr> # specPass2 rest (remaining(g := remaining g - 1))
      else \<lparr>letter = [g], status = Absent\<rparr> # specPass2 rest remaining)"

definition evaluate :: "string \<Rightarrow> string \<Rightarrow> LetterFeedback list" where
  "evaluate guess secret =
     (let g = toLowerCase guess;
          s = toLowerCase secret;
          remaining0 = (\<lambda>c. int (count_list s c))
      in specPass2 (zip g s) (specPass1 (zip g s) remaining0))"

text \<open>The multiset left after the second pass has run over a prefix (used in the proofs).\<close>

fun specRem2 :: "(char \<times> char) list \<Rightarrow> (char \<Rightarrow> int) \<Rightarrow> (char \<Rightarrow> int)" where
  "specRem2 [] remaining = remaining"
| "specRem2 ((g, s) # rest) remaining =
     specRem2 rest (if g \<noteq> s \<and> remaining g > 0 then remaining(g := remaining g - 1) else remaining)"

text \<open>
  The number of positions of a feedback array that carry the letter \<open>c\<close> with status
  \<open>correct\<close> or \<open>present\<close>.
\<close>

definition credited :: "char \<Rightarrow> LetterFeedback js_array \<Rightarrow> nat" where
  "credited c fb =
     length (filter (\<lambda>x. case x of None \<Rightarrow> False
                          | Some f \<Rightarrow> letter f = [c] \<and> (status f = Correct \<or> status f = Present)) fb)"

subsection \<open>getHintSummary, isGuessCorrect, isValidWord, getMaxAttempts\<close>

definition correctStep :: "string \<Rightarrow> string \<Rightarrow> nat \<Rightarrow> nat \<Rightarrow> nat" where
  "correctStep guessLower secretLower i correctCount =
     (if Some (guessLower ! i) = charAt secretLower i then correctCount + 1 else correctCount)"

definition lettersStep :: "char set \<Rightarrow> char \<Rightarrow> nat \<times> char set \<Rightarrow> nat \<times> char set" where
  "lettersStep secretChars c st =
     (case st of (lettersCount, countedLetters) \<Rightarrow>
        if c \<in> secretChars \<and> c \<notin> countedLetters
        then (lettersCount + 1, insert c countedLetters)
        else (lettersCount, countedLetters))"

definition getHintSummary :: "string \<Rightarrow> string \<Rightarrow> HintSummary" where
  "getHintSummary guess secret =
     (let guessLower = toLowerCase guess;
          secretLower = toLowerCase secret;
          correctCount = fold (correctStep guessLower secretLower) [0..<length guessLower] 0;
          secretChars = set secretLower;
          (lettersCount, countedLetters) = fold (lettersStep secretChars) guessLower (0, {})
      in \<lparr>lettersInWord = lettersCount, correctPosition = correctCount\<rparr>)"

definition isGuessCorrect :: "string \<Rightarrow> string \<Rightarrow> bool" where
  "isGuessCorrect guess secret = (toLowerCase guess = toLowerCase secret)"

text \<open>The test \<open>/^[a-z]+$/\<close>: at least one character, all of them in \<open>a\<close>..\<open>z\<close>.\<close>

definition matchesLowerAlpha :: "string \<Rightarrow> bool" where
  "matchesLowerAlpha s = (s \<noteq> [] \<and> list_all isLowerAlpha s)"

definition isValidWord :: "string \<Rightarrow> nat option \<Rightarrow> bool" where
  "isValidWord w wl =
     (let cleanWord = trim (toLowerCase w);
          len = length cleanWord
      in if len \<noteq> 5 \<and> len \<noteq> 6 then False
         else if wl \<noteq> None \<and> Some len \<noteq> wl then False
         else matchesLowerAlpha cleanWord)"

definition getMaxAttempts :: "WordLength \<Rightarrow> nat" where
  "getMaxAttempts wl = (if wl = Five then 6 else 7)"

subsection \<open>Statistics and the daily record, kept in local storage\<close>

text \<open>
  Local storage holds serialized records under fixed keys.  A key that is missing, or whose
  value does not parse, is \<open>None\<close>; a stored record reads back as it was written.
\<close>

record DailyRecord =
  dailyDate :: string
  dailyCompleted :: bool
  dailyWon :: bool
  dailyWordLength :: WordLength
  dailyGuesses :: nat

record Storage =
  wordgame_stats :: "GameStats option"
  wordgame_daily :: "DailyRecord option"

text \<open>The local calendar date as \<open>new Date()\<close> gives it; \<open>getMonth()\<close> counts from zero.\<close>

record JSDate =
  fullYear :: nat
  month :: nat
  dayOfMonth :: nat

definition digitChar :: "nat \<Rightarrow> char" where
  "digitChar d = char_of (48 + d)"

fun numberToString :: "nat \<Rightarrow> string" where
  "numberToString n =
     (if n < 10 then [digitChar n] else numberToString (n div 10) @ [digitChar (n mod 10)])"

declare numberToString.simps [simp del]

definition dateString :: "JSDate \<Rightarrow> string" where
  "dateString today =
     numberToString (fullYear today) @ ''-'' @ numberToString (month today) @ ''-'' @
     numberToString (dayOfMonth today)"

definition loadStats :: "Storage \<Rightarrow> GameStats" where
  "loadStats st =
     (case wordgame_stats st of
        Some stored \<Rightarrow> stored
      | None \<Rightarrow> \<lparr>gamesPlayed = 0, gamesWon = 0, currentStreak = 0, bestStreak = 0,
                 guessDistribution = Map.empty\<rparr>)"

definition saveStats :: "GameStats \<Rightarrow> Storage \<Rightarrow> Storage" where
  "saveStats stats st = st\<lparr>wordgame_stats := Some stats\<rparr>"

definition updateStats :: "bool \<Rightarrow> nat \<Rightarrow> Storage \<Rightarrow> GameStats \<times> Storage" where
  "updateStats won n st =
     (let stats0 = loadStats st;
          stats1 = stats0\<lparr>gamesPlayed := gamesPlayed stats0 + 1\<rparr>;
          stats2 =
            (if won then
               let a = stats1\<lparr>gamesWon := gamesWon stats1 + 1\<rparr>;
                   b = a\<lparr>currentStreak := currentStreak a + 1\<rparr>;
                   c = (if currentStreak b > bestStreak b
                        then b\<lparr>bestStreak := currentStreak b\<rparr> else b)
               in c\<lparr>guessDistribution :=
                      (guessDistribution c)(n \<mapsto> orZero (guessDistribution c n) + 1)\<rparr>
             else stats1\<lparr>currentStreak := 0\<rparr>)
      in (stats2, saveStats stats2 st))"

definition saveDailyChallengeCompleted ::
  "JSDate \<Rightarrow> bool \<Rightarrow> WordLength \<Rightarrow> nat \<Rightarrow> Storage \<Rightarrow> Storage" where
  "saveDailyChallengeCompleted today won wl n st =
     st\<lparr>wordgame_daily :=
          Some \<lparr>dailyDate = dateString today, dailyCompleted = True, dailyWon = won,
                dailyWordLength = wl, dailyGuesses = n\<rparr>\<rparr>"

subsection \<open>getDailyWord\<close>

text \<open>
  The bitwise operators convert their operands to 32-bit two's complement integers and
  give such an integer back; the arithmetic in between is exact.
\<close>

definition js_shl :: "int \<Rightarrow> nat \<Rightarrow> int" where
  "js_shl a k = sint (push_bit (k mod 32) (word_of_int a :: 32 word))"

definition js_and :: "int \<Rightarrow> int \<Rightarrow> int" where
  "js_and a b = sint ((word_of_int a :: 32 word) AND word_of_int b)"

definition hashStep :: "char \<Rightarrow> int \<Rightarrow> int" where
  "hashStep c hash = (let h = (js_shl hash 5 - hash) + int (of_char c) in js_and h h)"

definition dateHash :: "string \<Rightarrow> int" where
  "dateHash s = fold hashStep s 0"

text \<open>
  The word lists live in \<open>data/words\<close>, which is not part of the sources at hand: they
  are parameters.  Indexing an empty list gives \<open>undefined\<close>, here \<open>None\<close>.
\<close>

definition getDailyWord :: "string list \<Rightarrow> string list \<Rightarrow> WordLength \<Rightarrow> JSDate \<Rightarrow> string option" where
  "getDailyWord FIVE_LETTER_WORDS SIX_LETTER_WORDS wl today =
     (let wordList = (if wl = Five then FIVE_LETTER_WORDS else SIX_LETTER_WORDS);
          hash = dateHash (dateString today)
      in if wordList = [] then None
         else Some (wordList ! nat (\<bar>hash\<bar> mod int (length wordList))))"

text \<open>
  The hash as the specification words it: multiply by 32, subtract, add the character
  code, and truncate to a signed 32-bit value; then the index.
\<close>

definition trunc32 :: "int \<Rightarrow> int" where
  "trunc32 x = (x + 2 ^ 31) mod 2 ^ 32 - 2 ^ 31"

definition specHash :: "string \<Rightarrow> int" where
  "specHash s = fold (\<lambda>c h. trunc32 (h * 32 - h + int (of_char c))) s 0"

definition specDailyIndex :: "string \<Rightarrow> nat \<Rightarrow> nat" where
  "specDailyIndex s n = nat (\<bar>specHash s\<bar> mod int n)"

text \<open>
  \<open>getRandomWord\<close> draws an index with \<open>Math.floor(Math.random() * wordList.length)\<close>;
  the drawn index is a parameter.
\<close>

definition getRandomWord :: "string list \<Rightarrow> string list \<Rightarrow> WordLength \<Rightarrow> nat \<Rightarrow> string option" where
  "getRandomWord FIVE_LETTER_WORDS SIX_LETTER_WORDS wl randomIndex =
     (let wordList = (if wl = Five then FIVE_LETTER_WORDS else SIX_LETTER_WORDS)
      in if randomIndex < length wordList then Some (wordList ! randomIndex) else None)"


section \<open>The session engine (GameProvider in context/GameContext)\<close>

text \<open>
  The provider's state, together with the local storage it writes to and the list of the
  calls it has made to the statistics functions, oldest first.  The display settings
  take no part in the operations below and are left out.  Every operation is applied to
  the state of the latest render.
\<close>

datatype KeyStatus = KeyCorrect | KeyPresent | KeyAbsent

datatype StoreCall =
    UpdateStatsCall bool nat
  | SaveDailyCall bool WordLength nat

datatype js_error = TypeError

record GameContext =
  gameState :: GameState
  currentHint :: "HintSummary option"
  lastGuessFeedback :: "LetterFeedback list option"
  keyboardStatus :: "string \<rightharpoonup> KeyStatus"
  stats :: GameStats
  storage :: Storage
  storeCalls :: "StoreCall list"

definition keyStep :: "LetterFeedback \<Rightarrow> (string \<rightharpoonup> KeyStatus) \<Rightarrow> (string \<rightharpoonup> KeyStatus)" where
  "keyStep item newStatus =
     (let currentStatus = newStatus (letter item)
      in if status item = Correct then newStatus(letter item \<mapsto> KeyCorrect)
         else if status item = Present \<and> currentStatus \<noteq> Some KeyCorrect
           then newStatus(letter item \<mapsto> KeyPresent)
         else if status item = Absent \<and> currentStatus \<noteq> Some KeyCorrect
                 \<and> currentStatus \<noteq> Some KeyPresent
           then newStatus(letter item \<mapsto> KeyAbsent)
         else newStatus)"

definition updateKeyboardStatus ::
  "LetterFeedback list \<Rightarrow> (string \<rightharpoonup> KeyStatus) \<Rightarrow> (string \<rightharpoonup> KeyStatus)" where
  "updateKeyboardStatus fb prev = fold keyStep fb prev"

text \<open>The order \<open>absent < present < correct\<close>, with a letter not yet seen below all three.\<close>

fun keyRank :: "KeyStatus option \<Rightarrow> nat" where
  "keyRank None = 0"
| "keyRank (Some KeyAbsent) = 1"
| "keyRank (Some KeyPresent) = 2"
| "keyRank (Some KeyCorrect) = 3"

text \<open>
  \<open>startGame\<close>.  The word lists and the drawn random index are parameters.  When the
  word source has no word to give, the secret would be \<open>undefined\<close>, outside the declared
  type of the state: the result is \<open>None\<close>.
\<close>

definition startGame ::
  "string list \<Rightarrow> string list \<Rightarrow> JSDate \<Rightarrow> nat \<Rightarrow>
   WordLength \<Rightarrow> GameMode \<Rightarrow> string option \<Rightarrow> GameContext \<Rightarrow> GameContext option" where
  "startGame FIVE_LETTER_WORDS SIX_LETTER_WORDS today randomIndex wl mode customWord ctx =
     (let secret =
            (case customWord of
               Some w \<Rightarrow>
                 if length w > 0 \<and> length w = wordLengthNum wl then Some (toLowerCase w)
                 else if mode = Daily then getDailyWord FIVE_LETTER_WORDS SIX_LETTER_WORDS wl today
                 else getRandomWord FIVE_LETTER_WORDS SIX_LETTER_WORDS wl randomIndex
             | None \<Rightarrow>
                 if mode = Daily then getDailyWord FIVE_LETTER_WORDS SIX_LETTER_WORDS wl today
                 else getRandomWord FIVE_LETTER_WORDS SIX_LETTER_WORDS wl randomIndex)
      in case secret of
           None \<Rightarrow> None
         | Some w \<Rightarrow>
             Some (ctx\<lparr>gameState :=
                          \<lparr>secretWord = w, guesses = [], currentGuess = [],
                           gameStatus = Playing, wordLength = wl, gameMode = mode,
                           difficulty = Normal, maxAttempts = getMaxAttempts wl\<rparr>,
                        currentHint := None,
                        lastGuessFeedback := None,
                        keyboardStatus := Map.empty\<rparr>))"

text \<open>
  \<open>submitGuess\<close>.  The feedback array is handed to loops that read \<open>item.status\<close> of
  every element, which throws on a hole; \<open>those\<close> gives the elements when there is no
  hole.
\<close>

definition submitGuess :: "string \<Rightarrow> JSDate \<Rightarrow> GameContext \<Rightarrow> js_error + (bool \<times> GameContext)" where
  "submitGuess guess today ctx =
     (let gs = gameState ctx;
          w = toLowerCase guess
      in if length w \<noteq> wordLengthNum (wordLength gs) then Inr (False, ctx)
         else if \<not> isValidWord w (Some (wordLengthNum (wordLength gs))) then Inr (False, ctx)
         else
           case those (getGuessFeedback w (secretWord gs)) of
             None \<Rightarrow> Inl TypeError
           | Some fb \<Rightarrow>
               let hint = getHintSummary w (secretWord gs);
                   keyboard = updateKeyboardStatus fb (keyboardStatus ctx);
                   newGuesses = guesses gs @ [\<lparr>guessWord = w, feedback = fb\<rparr>];
                   won = isGuessCorrect w (secretWord gs);
                   lost = (\<not> won \<and> length newGuesses \<ge> maxAttempts gs);
                   ctx1 = ctx\<lparr>keyboardStatus := keyboard,
                              gameState := gs\<lparr>guesses := newGuesses, currentGuess := [],
                                gameStatus := (if won then Won else if lost then Lost else Playing)\<rparr>,
                              lastGuessFeedback := Some fb,
                              currentHint := Some hint\<rparr>;
                   ctx2 =
                     (if won \<or> lost then
                        let (newStats, st) = updateStats won (length newGuesses) (storage ctx1);
                            ctx3 = ctx1\<lparr>stats := newStats, storage := st,
                                     storeCalls := storeCalls ctx1 @ [UpdateStatsCall won (length newGuesses)]\<rparr>
                        in if gameMode gs = Daily
                           then ctx3\<lparr>storage := saveDailyChallengeCompleted today won (wordLength gs)
                                                   (length newGuesses) (storage ctx3),
                                     storeCalls := storeCalls ctx3 @
                                       [SaveDailyCall won (wordLength gs) (length newGuesses)]\<rparr>
                           else ctx3
                      else ctx1)
               in Inr (True, ctx2))"

definition addLetter :: "string \<Rightarrow> GameContext \<Rightarrow> GameContext" where
  "addLetter l ctx =
     (let upperLetter = toUpperCase l
      in if keyboardStatus ctx upperLetter = Some KeyAbsent then ctx
         else
           let prev = gameState ctx
           in if length (currentGuess prev) \<ge> wordLengthNum (wordLength prev)
                 \<or> gameStatus prev \<noteq> Playing
              then ctx
              else ctx\<lparr>gameState := prev\<lparr>currentGuess := currentGuess prev @ toLowerCase l\<rparr>\<rparr>)"

definition removeLetter :: "GameContext \<Rightarrow> GameContext" where
  "removeLetter ctx =
     (let prev = gameState ctx
      in if length (currentGuess prev) = 0 \<or> gameStatus prev \<noteq> Playing then ctx
         else ctx\<lparr>gameState := prev\<lparr>currentGuess := butlast (currentGuess prev)\<rparr>\<rparr>)"

subsection \<open>The callers in GameScreen\<close>

text \<open>
  \<open>handleSubmit\<close> and \<open>handleKeyPress\<close>, the handler of the on-screen keyboard, whose keys
  are \<open>ENTER\<close>, \<open>BACK\<close> and the capital letters.  The message they show is local to the
  screen and is left out.
\<close>

definition handleSubmit :: "JSDate \<Rightarrow> GameContext \<Rightarrow> js_error + GameContext" where
  "handleSubmit today ctx =
     (if length (currentGuess (gameState ctx)) \<noteq> wordLengthNum (wordLength (gameState ctx))
      then Inr ctx
      else map_sum id snd (submitGuess (currentGuess (gameState ctx)) today ctx))"

definition handleKeyPress :: "string \<Rightarrow> JSDate \<Rightarrow> GameContext \<Rightarrow> js_error + GameContext" where
  "handleKeyPress key today ctx =
     (if gameStatus (gameState ctx) \<noteq> Playing then Inr ctx
      else if key = ''ENTER'' then handleSubmit today ctx
      else if key = ''BACK'' then Inr (removeLetter ctx)
      else Inr (addLetter key ctx))"

subsection \<open>A session\<close>

text \<open>The provider's state at mount, with empty local storage, and a session played from it.\<close>

definition initialContext :: GameContext where
  "initialContext =
     \<lparr>gameState = \<lparr>secretWord = [], guesses = [], currentGuess = [], gameStatus = Playing,
                    wordLength = Five, gameMode = Unlimited, difficulty = Normal,
                    maxAttempts = 6\<rparr>,
      currentHint = None,
      lastGuessFeedback = None,
      keyboardStatus = Map.empty,
      stats = loadStats \<lparr>wordgame_stats = None, wordgame_daily = None\<rparr>,
      storage = \<lparr>wordgame_stats = None, wordgame_daily = None\<rparr>,
      storeCalls = []\<rparr>"

definition someDay :: JSDate where
  "someDay = \<lparr>fullYear = 2026, month = 10, dayOfMonth = 2\<rparr>"

text \<open>The state after a call of \<open>submitGuess\<close> on that day.\<close>

definition thenGuess :: "string \<Rightarrow> GameContext \<Rightarrow> GameContext" where
  "thenGuess w ctx =
     (case submitGuess w someDay ctx of Inr (accepted, ctx') \<Rightarrow> ctx' | Inl e \<Rightarrow> ctx)"

text \<open>A game on the chosen word \<open>hello\<close>, in unlimited and in daily mode.\<close>

definition helloContext :: GameContext where
  "helloContext =
     initialContext\<lparr>gameState :=
       \<lparr>secretWord = ''hello'', guesses = [], currentGuess = [], gameStatus = Playing,
        wordLength = Five, gameMode = Unlimited, difficulty = Normal, maxAttempts = 6\<rparr>\<rparr>"

definition dailyContext :: GameContext where
  "dailyContext =
     initialContext\<lparr>gameState :=
       \<lparr>secretWord = ''hello'', guesses = [], currentGuess = [], gameStatus = Playing,
        wordLength = Five, gameMode = Daily, difficulty = Normal, maxAttempts = 6\<rparr>\<rparr>"

text \<open>
  The unlimited game after the guess \<open>crazy\<close>, and after the winning guess \<open>hello\<close>;
  the daily game after five guesses \<open>crazy\<close>.
\<close>

definition afterCrazy :: GameContext where
  "afterCrazy = thenGuess ''crazy'' helloContext"

definition afterHello :: GameContext where
  "afterHello = thenGuess ''hello'' helloContext"

definition lastTurn :: GameContext where
  "lastTurn = (thenGuess ''crazy'' ^^ 5) dailyContext"

text \<open>A daily game on \<open>hello\<close> that is still open after \<open>k\<close> guesses, nothing stored yet.\<close>

definition midGame :: "nat \<Rightarrow> GameContext \<Rightarrow> bool" where
  "midGame k ctx \<longleftrightarrow>
     secretWord (gameState ctx) = ''hello'' \<and> wordLength (gameState ctx) = Five
     \<and> gameMode (gameState ctx) = Daily \<and> maxAttempts (gameState ctx) = 6
     \<and> gameStatus (gameState ctx) = Playing \<and> length (guesses (gameState ctx)) = k
     \<and> storeCalls ctx = [] \<and> wordgame_stats (storage ctx) = None"

section \<open>Loop invariants of getGuessFeedback\<close>

text \<open>
  What holds after the first \<open>k\<close> rounds of the first and of the second loop, for a
  guess \<open>g\<close> and a secret \<open>s\<close> of the same length, in terms of the two passes above.
\<close>

definition pass1Inv :: "string \<Rightarrow> string \<Rightarrow> charCounts \<Rightarrow> nat \<Rightarrow>
   LetterFeedback js_array \<times> nat list \<times> charCounts \<Rightarrow> bool" where
  "pass1Inv g s c0 k st = (case st of (fb, em, cnt) \<Rightarrow>
      length fb \<le> k
    \<and> set em = {i. i < k \<and> g ! i = s ! i}
    \<and> (\<forall>j. arr_get fb j = (if j < k \<and> g ! j = s ! j then Some \<lparr>letter = [g ! j], status = Correct\<rparr> else None))
    \<and> dom cnt = dom c0
    \<and> (\<forall>c. orZero (cnt c) = specPass1 (take k (zip g s)) (\<lambda>c. orZero (c0 c)) c))"

definition pass2Inv :: "string \<Rightarrow> string \<Rightarrow> LetterFeedback js_array \<Rightarrow> (char \<Rightarrow> int) \<Rightarrow> nat \<Rightarrow>
   LetterFeedback js_array \<times> charCounts \<Rightarrow> bool" where
  "pass2Inv g s fb1 r1 k st = (case st of (fb, cnt) \<Rightarrow>
      length fb \<le> length g
    \<and> (\<forall>j < k. arr_get fb j = Some (specPass2 (take k (zip g s)) r1 ! j))
    \<and> (\<forall>j \<ge> k. arr_get fb j = arr_get fb1 j)
    \<and> (\<forall>c. orZero (cnt c) = specRem2 (take k (zip g s)) r1 c))"


section \<open>Proofs: the evaluator\<close>

lemma arr_get_set: "arr_get (arr_set xs i v) j = (if j = i then Some v else arr_get xs j)"
  by (auto simp: arr_get_def arr_set_def nth_append)

lemma length_arr_set: "length (arr_set xs i v) = max (length xs) (Suc i)"
  by (auto simp: arr_set_def)

lemma arr_get_Some_length: "arr_get xs j = Some v \<Longrightarrow> j < length xs"
  by (auto simp: arr_get_def split: if_splits)

lemma arr_dense_eq:
  assumes "length xs = length ys" and "\<And>j. j < length ys \<Longrightarrow> arr_get xs j = Some (ys ! j)"
  shows "xs = map Some ys"
proof (rule nth_equalityI)
  show "length xs = length (map Some ys)" using assms(1) by simp
next
  fix i assume "i < length xs"
  then show "xs ! i = map Some ys ! i"
    using assms by (auto simp: arr_get_def split: if_splits)
qed

lemma orZero_countStep:
  "orZero (fold countStep s m c) = orZero (m c) + int (count_list s c)"
  by (induction s arbitrary: m) (auto simp: countStep_def orZero_def)

lemma dom_countStep: "dom (fold countStep s m) = dom m \<union> set s"
  by (induction s arbitrary: m) (auto simp: countStep_def)

lemma specPass1_append: "specPass1 (xs @ ys) r = specPass1 ys (specPass1 xs r)"
  by (induction xs arbitrary: r) auto

lemma specRem2_append: "specRem2 (xs @ ys) r = specRem2 ys (specRem2 xs r)"
  by (induction xs arbitrary: r) auto

lemma specPass2_append: "specPass2 (xs @ ys) r = specPass2 xs r @ specPass2 ys (specRem2 xs r)"
  by (induction xs arbitrary: r) auto

lemma length_specPass2: "length (specPass2 xs r) = length xs"
  by (induction xs arbitrary: r) auto

lemma orZero_decrement:
  "counts c \<noteq> None \<Longrightarrow> orZero (decrement counts c d) = (if d = c then orZero (counts c) - 1 else orZero (counts d))"
  by (auto simp: decrement_def orZero_def)

lemma dom_decrement: "dom (decrement counts c) = dom counts"
  by (auto simp: decrement_def dom_def)

lemma positiveCount_orZero: "positiveCount counts c \<longleftrightarrow> orZero (counts c) > 0"
  by (auto simp: positiveCount_def orZero_def split: option.splits)

lemma positiveCount_dom: "positiveCount counts c \<Longrightarrow> counts c \<noteq> None"
  by (auto simp: positiveCount_def split: option.splits)

lemma pass1_invariant:
  assumes len: "length g = length s" and dom0: "set s \<subseteq> dom c0"
  shows "k \<le> length g \<Longrightarrow> pass1Inv g s c0 k (fold (pass1Step g s) [0..<k] ([], [], c0))"
proof (induction k)
  case 0
  show ?case by (simp add: pass1Inv_def arr_get_def)
next
  case (Suc k)
  then have k: "k < length g" and IH: "pass1Inv g s c0 k (fold (pass1Step g s) [0..<k] ([], [], c0))"
    by simp_all
  obtain fb em cnt where st: "fold (pass1Step g s) [0..<k] ([], [], c0) = (fb, em, cnt)"
    by (cases "fold (pass1Step g s) [0..<k] ([], [], c0)") auto
  from IH st have
    L: "length fb \<le> k" and
    E: "set em = {i. i < k \<and> g ! i = s ! i}" and
    A: "\<And>j. arr_get fb j = (if j < k \<and> g ! j = s ! j then Some \<lparr>letter = [g ! j], status = Correct\<rparr> else None)" and
    D: "dom cnt = dom c0" and
    C: "\<And>c. orZero (cnt c) = specPass1 (take k (zip g s)) (\<lambda>c. orZero (c0 c)) c"
    by (simp_all add: pass1Inv_def)
  have tk: "take (Suc k) (zip g s) = take k (zip g s) @ [(g ! k, s ! k)]"
    using k len by (simp add: take_Suc_conv_app_nth)
  have ch: "charAt s k = Some (s ! k)" using k len by (simp add: charAt_def)
  show ?case
  proof (cases "g ! k = s ! k")
    case True
    have "s ! k \<in> set s" using k len by simp
    then have nn: "cnt (g ! k) \<noteq> None" using D dom0 True by auto
    have step: "fold (pass1Step g s) [0..<Suc k] ([], [], c0)
        = (arr_set fb k \<lparr>letter = [g ! k], status = Correct\<rparr>, em @ [k], decrement cnt (g ! k))"
      using st True ch by (simp add: pass1Step_def)
    have C': "\<And>c. orZero (decrement cnt (g ! k) c) = specPass1 (take (Suc k) (zip g s)) (\<lambda>c. orZero (c0 c)) c"
      using True C nn by (simp add: tk specPass1_append orZero_decrement)
    show ?thesis
      unfolding step pass1Inv_def
      using L E A D C' True by (auto simp: length_arr_set arr_get_set dom_decrement less_Suc_eq)
  next
    case False
    have step: "fold (pass1Step g s) [0..<Suc k] ([], [], c0) = (fb, em, cnt)"
      using st False ch by (simp add: pass1Step_def)
    have C': "\<And>c. orZero (cnt c) = specPass1 (take (Suc k) (zip g s)) (\<lambda>c. orZero (c0 c)) c"
      using False C by (simp add: tk specPass1_append)
    show ?thesis
      unfolding step pass1Inv_def
      using L E A D C' False by (auto simp: less_Suc_eq)
  qed
qed


lemma specPass2_snoc_nth:
  "j < length xs \<Longrightarrow> specPass2 (xs @ [x]) r ! j = specPass2 xs r ! j"
  by (simp add: specPass2_append nth_append length_specPass2)

lemma specPass2_snoc_last:
  "specPass2 (xs @ [x]) r ! length xs = hd (specPass2 [x] (specRem2 xs r))"
  by (cases x) (simp add: specPass2_append nth_append length_specPass2)

lemma pass2_invariant:
  assumes len: "length g = length s"
    and L1: "length fb1 \<le> length g"
    and E: "set em = {i. i < length g \<and> g ! i = s ! i}"
    and A1: "\<forall>j. arr_get fb1 j = (if j < length g \<and> g ! j = s ! j then Some \<lparr>letter = [g ! j], status = Correct\<rparr> else None)"
    and C1: "\<forall>c. orZero (cnt1 c) = r1 c"
  shows "k \<le> length g \<Longrightarrow> pass2Inv g s fb1 r1 k (fold (pass2Step g em) [0..<k] (fb1, cnt1))"
proof (induction k)
  case 0
  show ?case using L1 C1 by (simp add: pass2Inv_def)
next
  case (Suc k)
  then have k: "k < length g" and IH: "pass2Inv g s fb1 r1 k (fold (pass2Step g em) [0..<k] (fb1, cnt1))"
    by simp_all
  obtain fb cnt where st: "fold (pass2Step g em) [0..<k] (fb1, cnt1) = (fb, cnt)"
    by (cases "fold (pass2Step g em) [0..<k] (fb1, cnt1)") auto
  let ?zs = "take k (zip g s)"
  from IH st have
    L: "length fb \<le> length g" and
    A: "\<And>j. j < k \<Longrightarrow> arr_get fb j = Some (specPass2 ?zs r1 ! j)" and
    B: "\<And>j. k \<le> j \<Longrightarrow> arr_get fb j = arr_get fb1 j" and
    C: "\<And>c. orZero (cnt c) = specRem2 ?zs r1 c"
    by (simp_all add: pass2Inv_def)
  have lz: "length ?zs = k" using k len by simp
  have tk: "take (Suc k) (zip g s) = ?zs @ [(g ! k, s ! k)]"
    using k len by (simp add: take_Suc_conv_app_nth)
  have old: "\<And>j. j < k \<Longrightarrow> specPass2 (take (Suc k) (zip g s)) r1 ! j = specPass2 ?zs r1 ! j"
    unfolding tk using lz by (simp add: specPass2_snoc_nth)
  have new: "specPass2 (take (Suc k) (zip g s)) r1 ! k = hd (specPass2 [(g ! k, s ! k)] (specRem2 ?zs r1))"
    unfolding tk using specPass2_snoc_last [of ?zs "(g ! k, s ! k)" r1] lz by simp
  have rem: "specRem2 (take (Suc k) (zip g s)) r1 = specRem2 [(g ! k, s ! k)] (specRem2 ?zs r1)"
    unfolding tk by (simp add: specRem2_append)
  have mem: "k \<in> set em \<longleftrightarrow> g ! k = s ! k" using E k by simp
  show ?case
  proof (cases "g ! k = s ! k")
    case True
    have step: "fold (pass2Step g em) [0..<Suc k] (fb1, cnt1) = (fb, cnt)"
      using st True mem by (simp add: pass2Step_def)
    have atk: "arr_get fb k = Some \<lparr>letter = [g ! k], status = Correct\<rparr>"
      using B [of k] A1 k True by simp
    show ?thesis
      unfolding step pass2Inv_def
      using L A B C True atk old new rem by (auto simp: less_Suc_eq)
  next
    case neq: False
    show ?thesis
    proof (cases "positiveCount cnt (g ! k)")
      case True
      then have pos: "specRem2 ?zs r1 (g ! k) > 0" using C by (simp add: positiveCount_orZero)
      have nn: "cnt (g ! k) \<noteq> None" using True by (rule positiveCount_dom)
      have step: "fold (pass2Step g em) [0..<Suc k] (fb1, cnt1)
          = (arr_set fb k \<lparr>letter = [g ! k], status = Present\<rparr>, decrement cnt (g ! k))"
        using st neq mem True by (simp add: pass2Step_def Let_def)
      have C': "\<And>c. orZero (decrement cnt (g ! k) c) = specRem2 (take (Suc k) (zip g s)) r1 c"
        using neq pos C nn by (simp add: rem orZero_decrement)
      show ?thesis
        unfolding step pass2Inv_def
        using L A B C' neq pos old new k by (auto simp: less_Suc_eq arr_get_set length_arr_set)
    next
      case False
      then have npos: "\<not> specRem2 ?zs r1 (g ! k) > 0" using C by (simp add: positiveCount_orZero)
      have step: "fold (pass2Step g em) [0..<Suc k] (fb1, cnt1)
          = (arr_set fb k \<lparr>letter = [g ! k], status = Absent\<rparr>, cnt)"
        using st neq mem False by (simp add: pass2Step_def Let_def)
      have C': "\<And>c. orZero (cnt c) = specRem2 (take (Suc k) (zip g s)) r1 c"
        using neq npos C by (simp add: rem)
      show ?thesis
        unfolding step pass2Inv_def
        using L A B C' neq npos old new k by (auto simp: less_Suc_eq arr_get_set length_arr_set)
    qed
  qed
qed

lemma orZero_None: "orZero None = 0"
  by (simp add: orZero_def)

lemma fill_noop:
  "(\<And>j. j \<in> set js \<Longrightarrow> arr_get fb j \<noteq> None) \<Longrightarrow> fold (fillStep g) js fb = fb"
proof (induction js)
  case Nil
  show ?case by simp
next
  case (Cons a js)
  then have "arr_get fb a \<noteq> None" by simp
  then have "fillStep g a fb = fb" by (auto simp: fillStep_def)
  with Cons show ?case by simp
qed

lemma getGuessFeedback_refines:
  assumes len: "length guess = length secret"
  shows "getGuessFeedback guess secret = map Some (evaluate guess secret)"
proof -
  define g where "g = toLowerCase guess"
  define s where "s = toLowerCase secret"
  define c0 where "c0 = fold countStep s Map.empty"
  define r0 where "r0 = (\<lambda>c. int (count_list s c))"
  define r1 where "r1 = specPass1 (zip g s) r0"
  have len': "length g = length s" using len by (simp add: g_def s_def toLowerCase_def)
  have dom0: "set s \<subseteq> dom c0" by (simp add: c0_def dom_countStep)
  have c0r0: "(\<lambda>c. orZero (c0 c)) = r0"
    by (rule ext) (simp add: c0_def r0_def orZero_countStep orZero_None)
  obtain fb1 em cnt1 where p1: "fold (pass1Step g s) [0..<length g] ([], [], c0) = (fb1, em, cnt1)"
    by (cases "fold (pass1Step g s) [0..<length g] ([], [], c0)") auto
  have "pass1Inv g s c0 (length g) (fb1, em, cnt1)"
    using pass1_invariant [OF len' dom0, of "length g"] p1 by simp
  then have
    L1: "length fb1 \<le> length g" and
    E: "set em = {i. i < length g \<and> g ! i = s ! i}" and
    A1: "\<forall>j. arr_get fb1 j = (if j < length g \<and> g ! j = s ! j then Some \<lparr>letter = [g ! j], status = Correct\<rparr> else None)" and
    C1: "\<forall>c. orZero (cnt1 c) = r1 c"
    using len' by (simp_all add: pass1Inv_def c0r0 r1_def)
  obtain fb2 cnt2 where p2: "fold (pass2Step g em) [0..<length g] (fb1, cnt1) = (fb2, cnt2)"
    by (cases "fold (pass2Step g em) [0..<length g] (fb1, cnt1)") auto
  have "pass2Inv g s fb1 r1 (length g) (fb2, cnt2)"
    using pass2_invariant [OF len' L1 E A1 C1, of "length g"] p2 by simp
  then have
    L2: "length fb2 \<le> length g" and
    A2: "\<And>j. j < length g \<Longrightarrow> arr_get fb2 j = Some (specPass2 (zip g s) r1 ! j)"
    using len' by (simp_all add: pass2Inv_def)
  have "length g \<le> length fb2"
  proof (cases "length g")
    case 0
    then show ?thesis by simp
  next
    case (Suc m)
    then have "arr_get fb2 m = Some (specPass2 (zip g s) r1 ! m)" using A2 [of m] by simp
    then have "m < length fb2" by (rule arr_get_Some_length)
    then show ?thesis using Suc by simp
  qed
  with L2 have L2': "length fb2 = length (specPass2 (zip g s) r1)"
    using len' by (simp add: length_specPass2)
  have dense: "fb2 = map Some (specPass2 (zip g s) r1)"
    by (rule arr_dense_eq [OF L2']) (use A2 len' in \<open>simp add: length_specPass2\<close>)
  have fill: "fold (fillStep g) [0..<length g] fb2 = fb2"
    by (rule fill_noop) (use A2 in auto)
  have "getGuessFeedback guess secret = fb2"
    using p1 p2 fill by (simp add: getGuessFeedback_def Let_def g_def [symmetric] s_def [symmetric] c0_def [symmetric])
  also have "\<dots> = map Some (evaluate guess secret)"
    using dense by (simp add: evaluate_def Let_def g_def [symmetric] s_def [symmetric] r0_def [symmetric] r1_def [symmetric])
  finally show ?thesis .
qed

lemma specPass2_nth:
  "i < length zs \<Longrightarrow>
     letter (specPass2 zs r ! i) = [fst (zs ! i)] \<and> status (specPass2 zs r ! i) \<noteq> Empty"
proof (induction zs arbitrary: r i)
  case Nil
  then show ?case by simp
next
  case (Cons z zs)
  obtain a b where z: "z = (a, b)" by (cases z)
  show ?case
  proof (cases i)
    case 0
    then show ?thesis by (simp add: z)
  next
    case (Suc m)
    then have "m < length zs" using Cons.prems by simp
    from Cons.IH [OF this] show ?thesis by (simp add: z Suc)
  qed
qed

lemma specPass2_all_correct:
  "map status (specPass2 zs r) = replicate (length zs) Correct \<longleftrightarrow> (\<forall>(a, b) \<in> set zs. a = b)"
proof (induction zs arbitrary: r)
  case Nil
  show ?case by simp
next
  case (Cons z zs)
  obtain a b where z: "z = (a, b)" by (cases z)
  show ?case
    using Cons.IH [of r] Cons.IH [of "r(a := r a - 1)"] by (simp add: z)
qed

lemma specPass1_value:
  "specPass1 zs r c = r c - int (length (filter (\<lambda>(a, b). a = b \<and> a = c) zs))"
proof (induction zs arbitrary: r)
  case Nil
  show ?case by simp
next
  case (Cons z zs)
  obtain a b where z: "z = (a, b)" by (cases z)
  show ?case
  proof (cases "a = b")
    case True
    have "specPass1 (z # zs) r c = specPass1 zs (r(a := r a - 1)) c"
      by (simp add: z True)
    also have "\<dots> = (r(a := r a - 1)) c - int (length (filter (\<lambda>(a, b). a = b \<and> a = c) zs))"
      by (rule Cons.IH)
    also have "\<dots> = r c - int (length (filter (\<lambda>(a, b). a = b \<and> a = c) (z # zs)))"
      using True by (simp add: z)
    finally show ?thesis .
  next
    case False
    then show ?thesis using Cons.IH [of r] by (simp add: z)
  qed
qed

lemma matches_le_count:
  "length (filter (\<lambda>(a, b). a = b \<and> a = c) (zip g s)) \<le> count_list s c"
proof (induction g arbitrary: s)
  case Nil
  show ?case by simp
next
  case (Cons x g)
  show ?case
  proof (cases s)
    case Nil
    then show ?thesis by simp
  next
    case (Cons y s')
    with Cons.IH [of s'] show ?thesis by auto
  qed
qed

lemma specPass2_credit:
  "0 \<le> r c \<Longrightarrow>
   int (length (filter (\<lambda>f. letter f = [c] \<and> (status f = Correct \<or> status f = Present)) (specPass2 zs r)))
     \<le> int (length (filter (\<lambda>(a, b). a = b \<and> a = c) zs)) + r c"
proof (induction zs arbitrary: r)
  case Nil
  then show ?case by simp
next
  case (Cons z zs)
  obtain a b where z: "z = (a, b)" by (cases z)
  show ?case
  proof (cases "a = b")
    case True
    with Cons.IH [of r] Cons.prems show ?thesis by (simp add: z)
  next
    case neq: False
    show ?thesis
    proof (cases "0 < r a")
      case True
      define r' where "r' = r(a := r a - 1)"
      have r'c: "r' c = (if a = c then r c - 1 else r c)" by (simp add: r'_def)
      have unfold: "specPass2 (z # zs) r = \<lparr>letter = [a], status = Present\<rparr> # specPass2 zs r'"
        using neq True by (simp add: z r'_def)
      have "0 \<le> r' c" using True Cons.prems r'c by auto
      then have "int (length (filter (\<lambda>f. letter f = [c] \<and> (status f = Correct \<or> status f = Present))
                  (specPass2 zs r')))
          \<le> int (length (filter (\<lambda>(a, b). a = b \<and> a = c) zs)) + r' c"
        by (rule Cons.IH)
      then show ?thesis
        unfolding unfold using neq r'c by (auto simp: z split: if_splits)
    next
      case False
      with Cons.IH [of r] Cons.prems show ?thesis using neq by (simp add: z)
    qed
  qed
qed

lemma credited_map_Some:
  "credited c (map Some fs) =
     length (filter (\<lambda>f. letter f = [c] \<and> (status f = Correct \<or> status f = Present)) fs)"
  by (simp add: credited_def filter_map comp_def)

lemma evaluate_credit:
  "credited c (map Some (evaluate guess secret)) \<le> count_list (toLowerCase secret) c"
proof -
  define g where "g = toLowerCase guess"
  define s where "s = toLowerCase secret"
  define r0 where "r0 = (\<lambda>c. int (count_list s c))"
  define m where "m = length (filter (\<lambda>(a, b). a = b \<and> a = c) (zip g s))"
  have r1: "specPass1 (zip g s) r0 c = int (count_list s c) - int m"
    by (simp add: specPass1_value r0_def m_def)
  have "m \<le> count_list s c" unfolding m_def by (rule matches_le_count)
  then have nonneg: "0 \<le> specPass1 (zip g s) r0 c" using r1 by simp
  have "int (credited c (map Some (evaluate guess secret))) \<le> int m + specPass1 (zip g s) r0 c"
    unfolding credited_map_Some evaluate_def Let_def g_def [symmetric] s_def [symmetric] r0_def [symmetric] m_def
    using specPass2_credit [where r = "specPass1 (zip g s) r0" and c = c and zs = "zip g s"] nonneg
    by simp
  then show ?thesis using r1 by (simp add: s_def)
qed

lemma length_evaluate:
  "length guess = length secret \<Longrightarrow> length (evaluate guess secret) = length guess"
  by (simp add: evaluate_def Let_def length_specPass2 toLowerCase_def)

lemma evaluate_nth:
  assumes "length guess = length secret" and "i < length guess"
  shows "letter (evaluate guess secret ! i) = [toLowerCase guess ! i]"
    and "status (evaluate guess secret ! i) \<noteq> Empty"
proof -
  have i: "i < length (zip (toLowerCase guess) (toLowerCase secret))"
    using assms by (simp add: toLowerCase_def)
  from specPass2_nth [OF i] assms
  show "letter (evaluate guess secret ! i) = [toLowerCase guess ! i]"
    and "status (evaluate guess secret ! i) \<noteq> Empty"
    by (simp_all add: evaluate_def Let_def toLowerCase_def)
qed

text \<open>
  Claim C1.  For a guess and a secret of the same length, \<open>getGuessFeedback\<close> returns
  the result of the two-pass algorithm; the array has one entry per position of the guess
  and no hole; the entry at position \<open>i\<close> carries the \<open>i\<close>-th letter of the lower-cased
  guess with one of the statuses correct, present, absent; and for every letter the number
  of positions that carry it as correct or present is at most the number of times it
  occurs in the lower-cased secret.
\<close>

theorem getGuessFeedback_two_pass:
  assumes "length guess = length secret"
  shows "getGuessFeedback guess secret = map Some (evaluate guess secret)
       \<and> length (getGuessFeedback guess secret) = length guess
       \<and> (\<forall>i < length guess. \<exists>st. st \<noteq> Empty \<and>
             getGuessFeedback guess secret ! i = Some \<lparr>letter = [toLowerCase guess ! i], status = st\<rparr>)
       \<and> (\<forall>c. credited c (getGuessFeedback guess secret) \<le> count_list (toLowerCase secret) c)"
proof -
  have ref: "getGuessFeedback guess secret = map Some (evaluate guess secret)"
    by (rule getGuessFeedback_refines [OF assms])
  have len: "length (evaluate guess secret) = length guess"
    by (rule length_evaluate [OF assms])
  have pos: "\<exists>st. st \<noteq> Empty \<and>
      getGuessFeedback guess secret ! i = Some \<lparr>letter = [toLowerCase guess ! i], status = st\<rparr>"
    if i: "i < length guess" for i
  proof -
    have "evaluate guess secret ! i = \<lparr>letter = [toLowerCase guess ! i], status = status (evaluate guess secret ! i)\<rparr>"
      using evaluate_nth(1) [OF assms i] by (cases "evaluate guess secret ! i") simp
    then show ?thesis
      using evaluate_nth(2) [OF assms i] i len by (auto simp: ref)
  qed
  show ?thesis
    using ref len pos evaluate_credit by simp
qed

theorem getGuessFeedback_two_pass_witness:
  "length ''allee'' = length ''hello''
   \<and> getGuessFeedback ''allee'' ''hello'' = map Some (evaluate ''allee'' ''hello'')
   \<and> getGuessFeedback ''allee'' ''hello'' =
       [Some \<lparr>letter = ''a'', status = Absent\<rparr>, Some \<lparr>letter = ''l'', status = Present\<rparr>,
        Some \<lparr>letter = ''l'', status = Correct\<rparr>, Some \<lparr>letter = ''e'', status = Present\<rparr>,
        Some \<lparr>letter = ''e'', status = Absent\<rparr>]
   \<and> credited (CHR ''l'') (getGuessFeedback ''allee'' ''hello'') \<le> count_list (toLowerCase ''hello'') (CHR ''l'')"
proof -
  have h: "length ''allee'' = length ''hello''" by simp
  have v: "getGuessFeedback ''allee'' ''hello'' =
       [Some \<lparr>letter = ''a'', status = Absent\<rparr>, Some \<lparr>letter = ''l'', status = Present\<rparr>,
        Some \<lparr>letter = ''l'', status = Correct\<rparr>, Some \<lparr>letter = ''e'', status = Present\<rparr>,
        Some \<lparr>letter = ''e'', status = Absent\<rparr>]"
    by code_simp
  note t = getGuessFeedback_two_pass [OF h]
  from t have a: "getGuessFeedback ''allee'' ''hello'' = map Some (evaluate ''allee'' ''hello'')"
    by (rule conjunct1)
  from t have c: "credited (CHR ''l'') (getGuessFeedback ''allee'' ''hello'')
      \<le> count_list (toLowerCase ''hello'') (CHR ''l'')"
    by blast
  from h a v c show ?thesis by blast
qed

text \<open>
  Claim C10.  For a guess and a secret of the same length, \<open>isGuessCorrect\<close> holds
  exactly when \<open>getGuessFeedback\<close> gives the status correct at every position of the
  guess.
\<close>

theorem isGuessCorrect_iff_all_correct:
  assumes "length guess = length secret"
  shows "isGuessCorrect guess secret \<longleftrightarrow>
         map (map_option status) (getGuessFeedback guess secret) = replicate (length guess) (Some Correct)"
proof -
  define g where "g = toLowerCase guess"
  define s where "s = toLowerCase secret"
  have len: "length g = length s" using assms by (simp add: g_def s_def toLowerCase_def)
  have lg: "length g = length guess" by (simp add: g_def toLowerCase_def)
  have "map (map_option status) (getGuessFeedback guess secret) = map Some (map status (evaluate guess secret))"
    by (simp add: getGuessFeedback_refines [OF assms])
  also have "\<dots> = replicate (length guess) (Some Correct)
      \<longleftrightarrow> map status (evaluate guess secret) = replicate (length (zip g s)) Correct"
  proof -
    have "replicate (length guess) (Some Correct) = map Some (replicate (length (zip g s)) Correct)"
      using len lg by simp
    then show ?thesis by (simp only: inj_map_eq_map [OF inj_Some])
  qed
  also have "\<dots> \<longleftrightarrow> (\<forall>(a, b) \<in> set (zip g s). a = b)"
    unfolding evaluate_def Let_def g_def [symmetric] s_def [symmetric]
    by (rule specPass2_all_correct)
  also have "\<dots> \<longleftrightarrow> g = s"
    using len by (simp add: list_eq_iff_zip_eq)
  finally show ?thesis by (simp add: isGuessCorrect_def g_def s_def)
qed



theorem isGuessCorrect_iff_all_correct_witness:
  "length ''Hello'' = length ''hELLO''
   \<and> isGuessCorrect ''Hello'' ''hELLO''
   \<and> map (map_option status) (getGuessFeedback ''Hello'' ''hELLO'')
       = [Some Correct, Some Correct, Some Correct, Some Correct, Some Correct]"
proof -
  have h: "length ''Hello'' = length ''hELLO''" by simp
  have c: "isGuessCorrect ''Hello'' ''hELLO''" by code_simp
  from isGuessCorrect_iff_all_correct [OF h] c
  have "map (map_option status) (getGuessFeedback ''Hello'' ''hELLO'')
      = replicate (length ''Hello'') (Some Correct)"
    by (rule iffD1)
  with h c show ?thesis by simp
qed

lemma feedback_eerie_speed:
  "getGuessFeedback ''eerie'' ''speed'' =
     [Some \<lparr>letter = ''e'', status = Present\<rparr>, Some \<lparr>letter = ''e'', status = Present\<rparr>,
      Some \<lparr>letter = ''r'', status = Absent\<rparr>, Some \<lparr>letter = ''i'', status = Absent\<rparr>,
      Some \<lparr>letter = ''e'', status = Absent\<rparr>]"
  by code_simp

text \<open>
  Claim C2, as amended.  The guess \<open>eerie\<close> against the secret \<open>speed\<close> has no exact
  match; the two \<open>e\<close> of the secret go to the first two \<open>e\<close> of the guess, so the
  statuses are present, present, absent, absent, absent.
\<close>

theorem eerie_speed_feedback:
  "map (map_option status) (getGuessFeedback ''eerie'' ''speed'')
     = [Some Present, Some Present, Some Absent, Some Absent, Some Absent]"
  by (simp add: feedback_eerie_speed)

text \<open>
  Claim C2, as stated, fails: the statuses are not present, correct, absent, absent,
  absent.
\<close>

theorem eerie_speed_counterexample:
  "map (map_option status) (getGuessFeedback ''eerie'' ''speed'')
     \<noteq> [Some Present, Some Correct, Some Absent, Some Absent, Some Absent]"
  by (simp add: feedback_eerie_speed)

section \<open>Proofs: statistics\<close>

text \<open>
  Claim C7.  \<open>updateStats\<close> adds one to \<open>gamesPlayed\<close>.  After a win it adds one to
  \<open>gamesWon\<close> and to \<open>currentStreak\<close>, makes \<open>bestStreak\<close> the larger of its old value
  and the new streak, and adds one to the entry of the guess distribution for the number
  of attempts (a missing entry counts as 0), leaving the other entries alone.  After a
  loss it sets \<open>currentStreak\<close> to 0 and leaves \<open>gamesWon\<close>, \<open>bestStreak\<close> and the
  distribution alone.  The new statistics are what is stored.  On empty storage, a win in
  3 attempts gives 1, 1, 1, 1 and the distribution \<open>{3: 1}\<close>.
\<close>

theorem updateStats_effect:
  "gamesPlayed (fst (updateStats won n st)) = gamesPlayed (loadStats st) + 1
   \<and> (won \<longrightarrow>
         gamesWon (fst (updateStats won n st)) = gamesWon (loadStats st) + 1
       \<and> currentStreak (fst (updateStats won n st)) = currentStreak (loadStats st) + 1
       \<and> bestStreak (fst (updateStats won n st))
           = max (bestStreak (loadStats st)) (currentStreak (fst (updateStats won n st)))
       \<and> orZero (guessDistribution (fst (updateStats won n st)) n)
           = orZero (guessDistribution (loadStats st) n) + 1
       \<and> (\<forall>k. k \<noteq> n \<longrightarrow> guessDistribution (fst (updateStats won n st)) k
                             = guessDistribution (loadStats st) k))
   \<and> (\<not> won \<longrightarrow>
         currentStreak (fst (updateStats won n st)) = 0
       \<and> gamesWon (fst (updateStats won n st)) = gamesWon (loadStats st)
       \<and> bestStreak (fst (updateStats won n st)) = bestStreak (loadStats st)
       \<and> guessDistribution (fst (updateStats won n st)) = guessDistribution (loadStats st))
   \<and> wordgame_stats (snd (updateStats won n st)) = Some (fst (updateStats won n st))
   \<and> fst (updateStats True 3 \<lparr>wordgame_stats = None, wordgame_daily = None\<rparr>)
       = \<lparr>gamesPlayed = 1, gamesWon = 1, currentStreak = 1, bestStreak = 1,
          guessDistribution = [3 \<mapsto> 1]\<rparr>"
  by (auto simp: updateStats_def loadStats_def saveStats_def Let_def orZero_def max_def)

theorem updateStats_effect_witness:
  "gamesPlayed (fst (updateStats True 4
       \<lparr>wordgame_stats = Some \<lparr>gamesPlayed = 7, gamesWon = 5, currentStreak = 2, bestStreak = 2,
                                guessDistribution = [4 \<mapsto> 3]\<rparr>, wordgame_daily = None\<rparr>)) = 8
   \<and> bestStreak (fst (updateStats True 4
       \<lparr>wordgame_stats = Some \<lparr>gamesPlayed = 7, gamesWon = 5, currentStreak = 2, bestStreak = 2,
                                guessDistribution = [4 \<mapsto> 3]\<rparr>, wordgame_daily = None\<rparr>)) = 3
   \<and> orZero (guessDistribution (fst (updateStats True 4
       \<lparr>wordgame_stats = Some \<lparr>gamesPlayed = 7, gamesWon = 5, currentStreak = 2, bestStreak = 2,
                                guessDistribution = [4 \<mapsto> 3]\<rparr>, wordgame_daily = None\<rparr>)) 4) = 4
   \<and> currentStreak (fst (updateStats False 6
       \<lparr>wordgame_stats = Some \<lparr>gamesPlayed = 7, gamesWon = 5, currentStreak = 2, bestStreak = 2,
                                guessDistribution = [4 \<mapsto> 3]\<rparr>, wordgame_daily = None\<rparr>)) = 0"
  using
    updateStats_effect [of True 4
       "\<lparr>wordgame_stats = Some \<lparr>gamesPlayed = 7, gamesWon = 5, currentStreak = 2, bestStreak = 2,
                                guessDistribution = [4 \<mapsto> 3]\<rparr>, wordgame_daily = None\<rparr>"]
    updateStats_effect [of False 6
       "\<lparr>wordgame_stats = Some \<lparr>gamesPlayed = 7, gamesWon = 5, currentStreak = 2, bestStreak = 2,
                                guessDistribution = [4 \<mapsto> 3]\<rparr>, wordgame_daily = None\<rparr>"]
  by (simp add: loadStats_def orZero_def)

section \<open>Proofs: the keyboard status\<close>

lemma keyStep_mono: "keyRank (ks l) \<le> keyRank (keyStep item ks l)"
proof (cases "ks (letter item)")
  case None
  then show ?thesis by (auto simp: keyStep_def Let_def)
next
  case (Some k)
  then show ?thesis by (cases k) (auto simp: keyStep_def Let_def)
qed

lemma updateKeyboardStatus_mono: "keyRank (ks l) \<le> keyRank (updateKeyboardStatus fb ks l)"
  unfolding updateKeyboardStatus_def
proof (induction fb arbitrary: ks)
  case Nil
  show ?case by simp
next
  case (Cons item fb)
  have "keyRank (ks l) \<le> keyRank (keyStep item ks l)" by (rule keyStep_mono)
  also have "\<dots> \<le> keyRank (fold keyStep fb (keyStep item ks) l)" by (rule Cons.IH)
  finally show ?case by simp
qed

lemma keyboard_sequence_mono: "keyRank (ks l) \<le> keyRank (fold updateKeyboardStatus fbs ks l)"
proof (induction fbs arbitrary: ks)
  case Nil
  show ?case by simp
next
  case (Cons fb fbs)
  have "keyRank (ks l) \<le> keyRank (updateKeyboardStatus fb ks l)" by (rule updateKeyboardStatus_mono)
  also have "\<dots> \<le> keyRank (fold updateKeyboardStatus fbs (updateKeyboardStatus fb ks) l)"
    by (rule Cons.IH)
  finally show ?case by simp
qed

lemma keyRank_3: "keyRank x \<ge> 3 \<longleftrightarrow> x = Some KeyCorrect"
  by (cases x rule: keyRank.cases) auto

lemma keyRank_2: "keyRank x \<ge> 2 \<longleftrightarrow> x = Some KeyCorrect \<or> x = Some KeyPresent"
  by (cases x rule: keyRank.cases) auto

text \<open>
  Claim C5.  Along any sequence of feedbacks applied with \<open>updateKeyboardStatus\<close>, the
  status recorded for a letter never moves down in the order absent, present, correct: a
  letter that is correct stays correct, and a letter that is present stays present or
  becomes correct.
\<close>

theorem keyboardStatus_never_downgrades:
  "keyRank (ks l) \<le> keyRank (fold updateKeyboardStatus fbs ks l)
   \<and> (ks l = Some KeyCorrect \<longrightarrow> fold updateKeyboardStatus fbs ks l = Some KeyCorrect)
   \<and> (ks l = Some KeyPresent \<longrightarrow>
        fold updateKeyboardStatus fbs ks l = Some KeyPresent
      \<or> fold updateKeyboardStatus fbs ks l = Some KeyCorrect)"
proof -
  have m: "keyRank (ks l) \<le> keyRank (fold updateKeyboardStatus fbs ks l)"
    by (rule keyboard_sequence_mono)
  have c: "fold updateKeyboardStatus fbs ks l = Some KeyCorrect" if "ks l = Some KeyCorrect"
    using m that keyRank_3 [of "fold updateKeyboardStatus fbs ks l"] by simp
  have p: "fold updateKeyboardStatus fbs ks l = Some KeyPresent
      \<or> fold updateKeyboardStatus fbs ks l = Some KeyCorrect" if "ks l = Some KeyPresent"
    using m that keyRank_2 [of "fold updateKeyboardStatus fbs ks l"] by auto
  from m c p show ?thesis by blast
qed

theorem keyboardStatus_never_downgrades_witness:
  "[''e'' \<mapsto> KeyCorrect, ''r'' \<mapsto> KeyPresent] ''e'' = Some KeyCorrect
   \<and> fold updateKeyboardStatus
        [[\<lparr>letter = ''e'', status = Absent\<rparr>, \<lparr>letter = ''r'', status = Absent\<rparr>],
         [\<lparr>letter = ''e'', status = Present\<rparr>]]
        [''e'' \<mapsto> KeyCorrect, ''r'' \<mapsto> KeyPresent] ''e'' = Some KeyCorrect"
  using keyboardStatus_never_downgrades
     [of "[''e'' \<mapsto> KeyCorrect, ''r'' \<mapsto> KeyPresent]" "''e''"
         "[[\<lparr>letter = ''e'', status = Absent\<rparr>, \<lparr>letter = ''r'', status = Absent\<rparr>],
           [\<lparr>letter = ''e'', status = Present\<rparr>]]"]
  by simp

section \<open>Proofs: the hint summary\<close>

lemma correctStep_fold:
  "fold (correctStep g s) js n = n + length (filter (\<lambda>i. Some (g ! i) = charAt s i) js)"
  by (induction js arbitrary: n) (auto simp: correctStep_def)

lemma lettersStep_fold:
  "finite counted \<Longrightarrow>
   fst (fold (lettersStep S) g (n, counted)) = n + card ((set g \<inter> S) - counted)"
proof (induction g arbitrary: n counted)
  case Nil
  show ?case by simp
next
  case (Cons c g)
  show ?case
  proof (cases "c \<in> S \<and> c \<notin> counted")
    case True
    have fin: "finite (insert c counted)" using Cons.prems by simp
    have split: "(set (c # g) \<inter> S) - counted = insert c ((set g \<inter> S) - insert c counted)"
      using True by auto
    have notin: "c \<notin> (set g \<inter> S) - insert c counted" by simp
    have "finite ((set g \<inter> S) - insert c counted)" by simp
    then have card: "card ((set (c # g) \<inter> S) - counted) = Suc (card ((set g \<inter> S) - insert c counted))"
      unfolding split using notin by (rule card_insert_disjoint)
    have "fst (fold (lettersStep S) (c # g) (n, counted))
        = fst (fold (lettersStep S) g (n + 1, insert c counted))"
      using True by (simp add: lettersStep_def)
    also have "\<dots> = n + 1 + card ((set g \<inter> S) - insert c counted)"
      by (rule Cons.IH [OF fin])
    finally show ?thesis using card by simp
  next
    case False
    then have same: "(set (c # g) \<inter> S) - counted = (set g \<inter> S) - counted" by auto
    have "fst (fold (lettersStep S) (c # g) (n, counted)) = fst (fold (lettersStep S) g (n, counted))"
      using False by (auto simp: lettersStep_def)
    also have "\<dots> = n + card ((set g \<inter> S) - counted)"
      by (rule Cons.IH [OF Cons.prems])
    finally show ?thesis using same by simp
  qed
qed

lemma hint_speed_speed:
  "getHintSummary ''speed'' ''speed'' = \<lparr>lettersInWord = 4, correctPosition = 5\<rparr>"
  by code_simp

lemma getHintSummary_counts:
  assumes len: "length guess = length secret"
  shows "getHintSummary guess secret =
      \<lparr>lettersInWord = card (set (toLowerCase guess) \<inter> set (toLowerCase secret)),
       correctPosition = length (filter (\<lambda>i. toLowerCase guess ! i = toLowerCase secret ! i)
                                   [0..<length guess])\<rparr>"
proof -
  define g where "g = toLowerCase guess"
  define s where "s = toLowerCase secret"
  have lg: "length g = length guess" and ls: "length s = length guess"
    using len by (simp_all add: g_def s_def toLowerCase_def)
  have "filter (\<lambda>i. Some (g ! i) = charAt s i) [0..<length g]
      = filter (\<lambda>i. g ! i = s ! i) [0..<length g]"
    by (rule filter_cong) (use lg ls in \<open>auto simp: charAt_def\<close>)
  then have cp: "fold (correctStep g s) [0..<length g] 0
      = length (filter (\<lambda>i. g ! i = s ! i) [0..<length guess])"
    using lg by (simp add: correctStep_fold)
  have lw: "fst (fold (lettersStep (set s)) g (0, {})) = card (set g \<inter> set s)"
    using lettersStep_fold [of "{}" "set s" g 0] by simp
  obtain a b where ab: "fold (lettersStep (set s)) g (0, {}) = (a, b)"
    by (cases "fold (lettersStep (set s)) g (0, {})") auto
  with lw have a: "a = card (set g \<inter> set s)" by simp
  show ?thesis
    using cp a ab
    by (simp add: getHintSummary_def Let_def g_def [symmetric] s_def [symmetric])
qed

text \<open>
  Claim C8.  For inputs of the same length, \<open>correctPosition\<close> is the number of
  positions at which the lower-cased guess and secret agree, and \<open>lettersInWord\<close> is the
  number of distinct letters of the guess that occur in the secret.  For \<open>speed\<close> against
  \<open>speed\<close> the summary is 4 letters in the word and 5 in the correct position.
\<close>

theorem getHintSummary_spec:
  "(length guess = length secret \<longrightarrow>
      getHintSummary guess secret =
        \<lparr>lettersInWord = card (set (toLowerCase guess) \<inter> set (toLowerCase secret)),
         correctPosition = length (filter (\<lambda>i. toLowerCase guess ! i = toLowerCase secret ! i)
                                     [0..<length guess])\<rparr>)
   \<and> getHintSummary ''speed'' ''speed'' = \<lparr>lettersInWord = 4, correctPosition = 5\<rparr>"
  using getHintSummary_counts hint_speed_speed by blast

theorem getHintSummary_spec_witness:
  "length ''Eerie'' = length ''speed''
   \<and> getHintSummary ''Eerie'' ''speed'' =
        \<lparr>lettersInWord = card (set (toLowerCase ''Eerie'') \<inter> set (toLowerCase ''speed'')),
         correctPosition = length (filter (\<lambda>i. toLowerCase ''Eerie'' ! i = toLowerCase ''speed'' ! i)
                                     [0..<length ''Eerie''])\<rparr>
   \<and> getHintSummary ''Eerie'' ''speed'' = \<lparr>lettersInWord = 1, correctPosition = 0\<rparr>"
proof -
  have h: "length ''Eerie'' = length ''speed''" by simp
  have v: "getHintSummary ''Eerie'' ''speed'' = \<lparr>lettersInWord = 1, correctPosition = 0\<rparr>"
    by code_simp
  from getHintSummary_spec [of "''Eerie''" "''speed''"] h
  have e: "getHintSummary ''Eerie'' ''speed'' =
        \<lparr>lettersInWord = card (set (toLowerCase ''Eerie'') \<inter> set (toLowerCase ''speed'')),
         correctPosition = length (filter (\<lambda>i. toLowerCase ''Eerie'' ! i = toLowerCase ''speed'' ! i)
                                     [0..<length ''Eerie''])\<rparr>"
    by blast
  from h e v show ?thesis by blast
qed

section \<open>Proofs: the daily word\<close>

lemma sint32_trunc: "sint (word_of_int x :: 32 word) = trunc32 x"
  by (simp add: trunc32_def int_word_sint)

lemma word_of_int_sint32: "(word_of_int (sint w) :: 32 word) = w"
  by simp

lemma hashStep_spec: "hashStep c h = trunc32 (h * 32 - h + int (of_char c))"
proof -
  define w :: "32 word" where "w = push_bit 5 (word_of_int h)"
  have w: "w = word_of_int (h * 32)"
    by (simp add: w_def push_bit_eq_mult)
  have "(word_of_int (sint w - h + int (of_char c)) :: 32 word)
      = word_of_int (sint w) - word_of_int h + word_of_int (int (of_char c))"
    by (simp only: of_int_add of_int_diff)
  also have "\<dots> = word_of_int (h * 32) - word_of_int h + word_of_int (int (of_char c))"
    by (simp only: word_of_int_sint32 w)
  also have "\<dots> = word_of_int (h * 32 - h + int (of_char c))"
    by (simp only: of_int_add of_int_diff)
  finally have "(word_of_int (sint w - h + int (of_char c)) :: 32 word)
      = word_of_int (h * 32 - h + int (of_char c))" .
  then have "hashStep c h = sint (word_of_int (h * 32 - h + int (of_char c)) :: 32 word)"
    by (simp add: hashStep_def js_shl_def js_and_def Let_def w_def)
  then show ?thesis by (simp only: sint32_trunc)
qed

lemma dateHash_spec: "dateHash s = specHash s"
proof -
  have "hashStep = (\<lambda>c h. trunc32 (h * 32 - h + int (of_char c)))"
    by (intro ext) (rule hashStep_spec)
  then show ?thesis by (simp add: dateHash_def specHash_def)
qed

text \<open>
  Claim C9.  With a non-empty word list, \<open>getDailyWord\<close> returns the word at index
  \<open>|hash| mod length\<close>, where the hash is the fold of \<open>hash * 32 - hash + code\<close>, truncated
  to 32 bits, over the characters of the date string \<open>year-month-day\<close>; two dates with the
  same date string give the same word.
\<close>

theorem getDailyWord_deterministic:
  "((if wl = Five then FIVE else SIX) \<noteq> [] \<longrightarrow>
      getDailyWord FIVE SIX wl today =
        Some ((if wl = Five then FIVE else SIX) !
                specDailyIndex (dateString today) (length (if wl = Five then FIVE else SIX))))
   \<and> (dateString d1 = dateString d2 \<longrightarrow> getDailyWord FIVE SIX wl d1 = getDailyWord FIVE SIX wl d2)"
  by (simp add: getDailyWord_def Let_def specDailyIndex_def dateHash_spec)

theorem getDailyWord_deterministic_witness:
  "[''hello'', ''world'', ''apple''] \<noteq> []
   \<and> dateString \<lparr>fullYear = 2026, month = 10, dayOfMonth = 2\<rparr> = ''2026-10-2''
   \<and> specHash ''2026-10-2'' = 591691247
   \<and> getDailyWord [''hello'', ''world'', ''apple''] [''garden''] Five
        \<lparr>fullYear = 2026, month = 10, dayOfMonth = 2\<rparr> = Some ''apple''"
proof -
  have d: "dateString \<lparr>fullYear = 2026, month = 10, dayOfMonth = 2\<rparr> = ''2026-10-2''"
    by code_simp
  have h: "specHash ''2026-10-2'' = 591691247"
    by code_simp
  have i: "specDailyIndex ''2026-10-2'' (Suc (Suc (Suc 0))) = 2"
    by (simp add: specDailyIndex_def h)
  from getDailyWord_deterministic
         [of Five "[''hello'', ''world'', ''apple'']" "[''garden'']"
             "\<lparr>fullYear = 2026, month = 10, dayOfMonth = 2\<rparr>"]
  have "getDailyWord [''hello'', ''world'', ''apple''] [''garden''] Five
        \<lparr>fullYear = 2026, month = 10, dayOfMonth = 2\<rparr> = Some ''apple''"
    by (simp add: d i)
  with d h show ?thesis by simp
qed


section \<open>Proofs: the session engine\<close>

subsection \<open>Validation of the input\<close>

lemma lowerChar_idem: "lowerChar (lowerChar c) = lowerChar c"
  by (auto simp: lowerChar_def Let_def)

lemma toLowerCase_idem: "toLowerCase (toLowerCase w) = toLowerCase w"
  by (simp add: toLowerCase_def lowerChar_idem)

lemma length_toLowerCase: "length (toLowerCase w) = length w"
  by (simp add: toLowerCase_def)

lemma isLowerAlpha_not_space: "isLowerAlpha c \<Longrightarrow> \<not> isWhiteSpace c"
  by (auto simp: isLowerAlpha_def isWhiteSpace_def Let_def)

lemma dropWhile_same_length: "length (dropWhile P xs) = length xs \<Longrightarrow> dropWhile P xs = xs"
proof -
  assume l: "length (dropWhile P xs) = length xs"
  have "length (takeWhile P xs) + length (dropWhile P xs) = length xs"
    by (metis length_append takeWhile_dropWhile_id)
  with l have "takeWhile P xs = []" by simp
  then show ?thesis by (metis append_Nil takeWhile_dropWhile_id)
qed

lemma trim_same_length: "length (trim w) = length w \<Longrightarrow> trim w = w"
proof -
  assume l: "length (trim w) = length w"
  have a: "length (trim w) \<le> length (dropWhile isWhiteSpace w)"
    using length_dropWhile_le [of isWhiteSpace "rev (dropWhile isWhiteSpace w)"]
    by (simp add: trim_def)
  have b: "length (dropWhile isWhiteSpace w) \<le> length w" by (rule length_dropWhile_le)
  from l a b have "length (dropWhile isWhiteSpace w) = length w" by simp
  then have d: "dropWhile isWhiteSpace w = w" by (rule dropWhile_same_length)
  from l have "length (dropWhile isWhiteSpace (rev w)) = length (rev w)"
    by (simp add: trim_def d)
  then have "dropWhile isWhiteSpace (rev w) = rev w" by (rule dropWhile_same_length)
  then show ?thesis by (simp add: trim_def d)
qed

lemma dropWhile_none: "(\<forall>c \<in> set xs. \<not> P c) \<Longrightarrow> dropWhile P xs = xs"
  by (cases xs) auto

lemma trim_alpha: "list_all isLowerAlpha w \<Longrightarrow> trim w = w"
proof -
  assume a: "list_all isLowerAlpha w"
  then have n: "\<forall>c \<in> set w. \<not> isWhiteSpace c"
    by (auto simp: list_all_iff isLowerAlpha_not_space)
  then have "\<forall>c \<in> set (rev w). \<not> isWhiteSpace c" by simp
  then have "dropWhile isWhiteSpace (rev w) = rev w" by (rule dropWhile_none)
  with n show ?thesis by (simp add: trim_def dropWhile_none)
qed

lemma isValidWord_lower:
  assumes len: "length w = wordLengthNum wl" and low: "toLowerCase w = w"
  shows "isValidWord w (Some (wordLengthNum wl)) \<longleftrightarrow> list_all isLowerAlpha w"
proof
  assume v: "isValidWord w (Some (wordLengthNum wl))"
  then have "length (trim w) = wordLengthNum wl"
    by (auto simp: isValidWord_def Let_def low split: if_splits)
  then have t: "trim w = w" using len by (simp add: trim_same_length)
  from v show "list_all isLowerAlpha w"
    by (auto simp: isValidWord_def Let_def low t matchesLowerAlpha_def split: if_splits)
next
  assume a: "list_all isLowerAlpha w"
  then have t: "trim w = w" by (rule trim_alpha)
  have n: "w \<noteq> []" using len by (cases wl) auto
  have "length w = 5 \<or> length w = 6" using len by (cases wl) auto
  then show "isValidWord w (Some (wordLengthNum wl))"
    using a n len by (auto simp: isValidWord_def Let_def low t matchesLowerAlpha_def)
qed

subsection \<open>The feedback array has no hole, whatever the lengths\<close>

lemma those_map_Some: "those (map Some xs) = Some xs"
  by (induction xs) auto

lemma pass1_length:
  "(\<forall>i \<in> set js. i < n) \<Longrightarrow> length (fst st) \<le> n \<Longrightarrow>
   length (fst (fold (pass1Step g s) js st)) \<le> n"
proof (induction js arbitrary: st)
  case Nil
  then show ?case by simp
next
  case (Cons j js)
  have "length (fst (pass1Step g s j st)) \<le> n"
    using Cons.prems by (auto simp: pass1Step_def length_arr_set split: prod.splits)
  with Cons show ?case by simp
qed

lemma pass2_length:
  "(\<forall>i \<in> set js. i < n) \<Longrightarrow> length (fst st) \<le> n \<Longrightarrow>
   length (fst (fold (pass2Step g em) js st)) \<le> n"
proof (induction js arbitrary: st)
  case Nil
  then show ?case by simp
next
  case (Cons j js)
  have "length (fst (pass2Step g em j st)) \<le> n"
    using Cons.prems by (auto simp: pass2Step_def Let_def length_arr_set split: prod.splits)
  with Cons show ?case by simp
qed

lemma fill_length:
  "(\<forall>i \<in> set js. i < n) \<Longrightarrow> length fb \<le> n \<Longrightarrow> length (fold (fillStep g) js fb) \<le> n"
proof (induction js arbitrary: fb)
  case Nil
  then show ?case by simp
next
  case (Cons j js)
  have "length (fillStep g j fb) \<le> n"
    using Cons.prems by (auto simp: fillStep_def length_arr_set)
  with Cons show ?case by simp
qed

lemma fill_keeps:
  "arr_get fb j \<noteq> None \<Longrightarrow> arr_get (fold (fillStep g) js fb) j \<noteq> None"
proof (induction js arbitrary: fb)
  case Nil
  then show ?case by simp
next
  case (Cons i js)
  have "arr_get (fillStep g i fb) j \<noteq> None"
    using Cons.prems by (auto simp: fillStep_def arr_get_set)
  then show ?case using Cons.IH by simp
qed

lemma fill_fills:
  "j \<in> set js \<Longrightarrow> arr_get (fold (fillStep g) js fb) j \<noteq> None"
proof (induction js arbitrary: fb)
  case Nil
  then show ?case by simp
next
  case (Cons i js)
  show ?case
  proof (cases "j = i")
    case True
    have "arr_get (fillStep g i fb) j \<noteq> None"
      using True by (auto simp: fillStep_def arr_get_set)
    then show ?thesis using fill_keeps by simp
  next
    case False
    with Cons.prems have "j \<in> set js" by simp
    then show ?thesis using Cons.IH by simp
  qed
qed

lemma getGuessFeedback_dense:
  "\<exists>fs. getGuessFeedback guess secret = map Some fs \<and> length fs = length guess"
proof -
  define g where "g = toLowerCase guess"
  define s where "s = toLowerCase secret"
  define n where "n = length g"
  define st1 where "st1 = fold (pass1Step g s) [0..<n] ([], [], fold countStep s Map.empty)"
  define st2 where "st2 = fold (pass2Step g (fst (snd st1))) [0..<n] (fst st1, snd (snd st1))"
  define r where "r = fold (fillStep g) [0..<n] (fst st2)"
  have res: "getGuessFeedback guess secret = r"
    by (simp add: getGuessFeedback_def Let_def r_def st2_def st1_def n_def g_def s_def
        split: prod.splits)
  have l1: "length (fst st1) \<le> n"
    unfolding st1_def by (rule pass1_length) simp_all
  have l2: "length (fst st2) \<le> n"
    unfolding st2_def by (rule pass2_length) (simp_all add: l1)
  have lr: "length r \<le> n"
    unfolding r_def by (rule fill_length) (simp_all add: l2)
  have full: "arr_get r j \<noteq> None" if "j < n" for j
    unfolding r_def by (rule fill_fills) (use that in simp)
  have "n \<le> length r"
  proof (cases n)
    case 0
    then show ?thesis by simp
  next
    case (Suc m)
    then have "arr_get r m \<noteq> None" using full [of m] by simp
    then have "m < length r" by (auto simp: arr_get_def split: if_splits)
    then show ?thesis using Suc by simp
  qed
  with lr have len: "length r = n" by simp
  have some: "r ! j \<noteq> None" if "j < length r" for j
    using full [of j] that len by (simp add: arr_get_def)
  have "r = map Some (map the r)"
    by (rule nth_equalityI) (use some in auto)
  moreover have "length (map the r) = length guess"
    using len by (simp add: n_def g_def length_toLowerCase)
  ultimately show ?thesis unfolding res by blast
qed

subsection \<open>submitGuess\<close>

lemma submitGuess_rejected:
  "length (toLowerCase raw) \<noteq> wordLengthNum (wordLength (gameState ctx))
     \<or> \<not> list_all isLowerAlpha (toLowerCase raw)
   \<Longrightarrow> submitGuess raw today ctx = Inr (False, ctx)"
  using isValidWord_lower [of "toLowerCase raw" "wordLength (gameState ctx)"]
  by (auto simp: submitGuess_def Let_def toLowerCase_idem)

lemma submitGuess_accepted:
  assumes "length (toLowerCase raw) = wordLengthNum (wordLength (gameState ctx))"
    and "list_all isLowerAlpha (toLowerCase raw)"
  shows "\<exists>ctx'. submitGuess raw today ctx = Inr (True, ctx')"
proof -
  have v: "isValidWord (toLowerCase raw) (Some (wordLengthNum (wordLength (gameState ctx))))"
    using isValidWord_lower [of "toLowerCase raw" "wordLength (gameState ctx)"] assms
    by (simp add: toLowerCase_idem)
  obtain fs where "getGuessFeedback (toLowerCase raw) (secretWord (gameState ctx)) = map Some fs"
    using getGuessFeedback_dense by blast
  then have t: "those (getGuessFeedback (toLowerCase raw) (secretWord (gameState ctx))) = Some fs"
    by (simp add: those_map_Some)
  show ?thesis
    using assms(1) v t by (simp add: submitGuess_def Let_def split: prod.splits)
qed

text \<open>
  The tests that \<open>submitGuess\<close> makes.  It returns \<open>false\<close>, leaving the whole state as it
  was, exactly when the lower-cased input has not the session's word length or has a
  character outside \<open>a\<close>..\<open>z\<close>, and it accepts every other input.  The status of the
  session is not among the tests.
\<close>

lemma submitGuess_tests:
  "(submitGuess raw today ctx = Inr (False, ctx) \<longleftrightarrow>
      length (toLowerCase raw) \<noteq> wordLengthNum (wordLength (gameState ctx))
      \<or> \<not> list_all isLowerAlpha (toLowerCase raw))
   \<and> (length (toLowerCase raw) = wordLengthNum (wordLength (gameState ctx))
        \<and> list_all isLowerAlpha (toLowerCase raw)
      \<longrightarrow> (\<exists>ctx'. submitGuess raw today ctx = Inr (True, ctx')))"
  using submitGuess_rejected [of raw ctx today] submitGuess_accepted [of raw ctx today]
  by auto

subsection \<open>The sessions used as examples\<close>

text \<open>Both games are what \<open>startGame\<close> gives for the chosen word \<open>hello\<close>.\<close>

lemma startGame_hello:
  "startGame [] [] someDay 0 Five Unlimited (Some ''hello'') initialContext = Some helloContext"
  by (simp add: startGame_def helloContext_def initialContext_def getMaxAttempts_def
      toLowerCase_def lowerChar_def Let_def)

lemma startGame_daily:
  "startGame [] [] someDay 0 Five Daily (Some ''hello'') initialContext = Some dailyContext"
  by (simp add: startGame_def dailyContext_def initialContext_def getMaxAttempts_def
      toLowerCase_def lowerChar_def Let_def)

lemma thenGuess_accepted:
  "submitGuess w someDay ctx = Inr (b, ctx') \<Longrightarrow> thenGuess w ctx = ctx'"
  by (simp add: thenGuess_def)

lemma crazy_accepted: "submitGuess ''crazy'' someDay helloContext = Inr (True, afterCrazy)"
proof -
  have "length (toLowerCase ''crazy'') = wordLengthNum (wordLength (gameState helloContext))"
    by code_simp
  moreover have "list_all isLowerAlpha (toLowerCase ''crazy'')" by code_simp
  ultimately obtain ctx' where s: "submitGuess ''crazy'' someDay helloContext = Inr (True, ctx')"
    using submitGuess_accepted by blast
  then show ?thesis by (simp add: afterCrazy_def thenGuess_def)
qed

lemma hello_accepted: "submitGuess ''hello'' someDay helloContext = Inr (True, afterHello)"
proof -
  have "length (toLowerCase ''hello'') = wordLengthNum (wordLength (gameState helloContext))"
    by code_simp
  moreover have "list_all isLowerAlpha (toLowerCase ''hello'')" by code_simp
  ultimately obtain ctx' where s: "submitGuess ''hello'' someDay helloContext = Inr (True, ctx')"
    using submitGuess_accepted by blast
  then show ?thesis by (simp add: afterHello_def thenGuess_def)
qed

text \<open>
  Claim C3 at a finished game.  The game on \<open>hello\<close> is won with the first guess, so its
  status is not \<open>playing\<close>, and the claim has \<open>submitGuess\<close> reject whatever comes next.
  It does not: the guess \<open>world\<close> is accepted and appended, and the status goes back to
  \<open>playing\<close>; the guess \<open>hello\<close>, made once more, is accepted too and the finished game
  is counted a second time in the statistics.  \<open>addLetter\<close> and \<open>removeLetter\<close>, next to it
  in the provider, do test the status.
\<close>

theorem submitGuess_accepts_after_win:
  "startGame [] [] someDay 0 Five Unlimited (Some ''hello'') initialContext = Some helloContext
   \<and> submitGuess ''hello'' someDay helloContext = Inr (True, afterHello)
   \<and> gameStatus (gameState afterHello) = Won
   \<and> storeCalls afterHello = [UpdateStatsCall True 1]
   \<and> gamesPlayed (stats afterHello) = 1
   \<and> submitGuess ''world'' someDay afterHello \<noteq> Inr (False, afterHello)
   \<and> map_sum id fst (submitGuess ''world'' someDay afterHello) = Inr True
   \<and> map guessWord (guesses (gameState (thenGuess ''world'' afterHello))) = [''hello'', ''world'']
   \<and> gameStatus (gameState (thenGuess ''world'' afterHello)) = Playing
   \<and> map_sum id fst (submitGuess ''hello'' someDay afterHello) = Inr True
   \<and> storeCalls (thenGuess ''hello'' afterHello) = [UpdateStatsCall True 1, UpdateStatsCall True 2]
   \<and> gamesPlayed (stats (thenGuess ''hello'' afterHello)) = 2"
proof -
  have a: "map_sum id fst (submitGuess ''world'' someDay afterHello) = Inr True" by code_simp
  have n: "submitGuess ''world'' someDay afterHello \<noteq> Inr (False, afterHello)"
  proof
    assume "submitGuess ''world'' someDay afterHello = Inr (False, afterHello)"
    then have "map_sum id fst (submitGuess ''world'' someDay afterHello) = Inr False" by simp
    with a show False by simp
  qed
  have s: "gameStatus (gameState afterHello) = Won
   \<and> storeCalls afterHello = [UpdateStatsCall True 1]
   \<and> gamesPlayed (stats afterHello) = 1"
    by code_simp
  have w: "map guessWord (guesses (gameState (thenGuess ''world'' afterHello))) = [''hello'', ''world'']
   \<and> gameStatus (gameState (thenGuess ''world'' afterHello)) = Playing"
    by code_simp
  have h: "map_sum id fst (submitGuess ''hello'' someDay afterHello) = Inr True
   \<and> storeCalls (thenGuess ''hello'' afterHello) = [UpdateStatsCall True 1, UpdateStatsCall True 2]
   \<and> gamesPlayed (stats (thenGuess ''hello'' afterHello)) = 2"
    by code_simp
  from startGame_hello hello_accepted s n a w h show ?thesis by blast
qed

text \<open>The tests of \<open>submitGuess\<close> at a wrong length, at a digit and at a word of letters.\<close>

lemma submitGuess_tests_examples:
  "length (toLowerCase ''hell'') \<noteq> wordLengthNum (wordLength (gameState helloContext))
   \<and> submitGuess ''hell'' someDay helloContext = Inr (False, helloContext)
   \<and> \<not> list_all isLowerAlpha (toLowerCase ''he1lo'')
   \<and> submitGuess ''he1lo'' someDay helloContext = Inr (False, helloContext)
   \<and> length (toLowerCase ''Crazy'') = wordLengthNum (wordLength (gameState helloContext))
   \<and> list_all isLowerAlpha (toLowerCase ''Crazy'')
   \<and> map_sum id fst (submitGuess ''Crazy'' someDay helloContext) = Inr True"
proof -
  have a: "length (toLowerCase ''hell'') \<noteq> wordLengthNum (wordLength (gameState helloContext))"
    by code_simp
  have b: "\<not> list_all isLowerAlpha (toLowerCase ''he1lo'')" by code_simp
  have c: "length (toLowerCase ''Crazy'') = wordLengthNum (wordLength (gameState helloContext))"
    by code_simp
  have d: "list_all isLowerAlpha (toLowerCase ''Crazy'')" by code_simp
  from submitGuess_tests [of "''hell''" someDay helloContext] a
  have ra: "submitGuess ''hell'' someDay helloContext = Inr (False, helloContext)" by blast
  from submitGuess_tests [of "''he1lo''" someDay helloContext] b
  have rb: "submitGuess ''he1lo'' someDay helloContext = Inr (False, helloContext)" by blast
  from submitGuess_tests [of "''Crazy''" someDay helloContext] c d
  obtain ctx' where "submitGuess ''Crazy'' someDay helloContext = Inr (True, ctx')" by blast
  then have rc: "map_sum id fst (submitGuess ''Crazy'' someDay helloContext) = Inr True" by simp
  from a ra b rb c d rc show ?thesis by blast
qed

lemma isGuessCorrect_lower: "isGuessCorrect (toLowerCase w) s = isGuessCorrect w s"
  by (simp add: isGuessCorrect_def toLowerCase_idem)

text \<open>
  Claim C4.  When an accepted guess that is not the secret brings the number of guesses
  to \<open>maxAttempts\<close>, the status becomes \<open>lost\<close>; the call makes exactly one call
  \<open>updateStats(false, maxAttempts)\<close>, followed in daily mode by exactly one call
  \<open>saveDailyChallengeCompleted(false, wordLength, maxAttempts)\<close>, and no other; the
  statistics of the state and of the storage are those of that one update.
\<close>

theorem submitGuess_last_attempt_lost:
  assumes len: "length (toLowerCase raw) = wordLengthNum (wordLength (gameState ctx))"
    and alpha: "list_all isLowerAlpha (toLowerCase raw)"
    and miss: "\<not> isGuessCorrect raw (secretWord (gameState ctx))"
    and last: "length (guesses (gameState ctx)) + 1 = maxAttempts (gameState ctx)"
  shows "\<exists>ctx'. submitGuess raw today ctx = Inr (True, ctx')
      \<and> gameStatus (gameState ctx') = Lost
      \<and> length (guesses (gameState ctx')) = maxAttempts (gameState ctx)
      \<and> storeCalls ctx' = storeCalls ctx
           @ UpdateStatsCall False (maxAttempts (gameState ctx))
           # (if gameMode (gameState ctx) = Daily
              then [SaveDailyCall False (wordLength (gameState ctx)) (maxAttempts (gameState ctx))]
              else [])
      \<and> stats ctx' = fst (updateStats False (maxAttempts (gameState ctx)) (storage ctx))
      \<and> wordgame_stats (storage ctx') = Some (stats ctx')
      \<and> gamesPlayed (stats ctx') = gamesPlayed (loadStats (storage ctx)) + 1
      \<and> (gameMode (gameState ctx) = Daily \<longrightarrow>
            wordgame_daily (storage ctx') =
              Some \<lparr>dailyDate = dateString today, dailyCompleted = True, dailyWon = False,
                    dailyWordLength = wordLength (gameState ctx),
                    dailyGuesses = maxAttempts (gameState ctx)\<rparr>)
      \<and> (gameMode (gameState ctx) \<noteq> Daily \<longrightarrow>
            wordgame_daily (storage ctx') = wordgame_daily (storage ctx))"
proof -
  have v: "isValidWord (toLowerCase raw) (Some (wordLengthNum (wordLength (gameState ctx))))"
    using isValidWord_lower [of "toLowerCase raw" "wordLength (gameState ctx)"] len alpha
    by (simp add: toLowerCase_idem)
  obtain fs where "getGuessFeedback (toLowerCase raw) (secretWord (gameState ctx)) = map Some fs"
    using getGuessFeedback_dense by blast
  then have t: "those (getGuessFeedback (toLowerCase raw) (secretWord (gameState ctx))) = Some fs"
    by (simp add: those_map_Some)
  have m: "\<not> isGuessCorrect (toLowerCase raw) (secretWord (gameState ctx))"
    using miss by (simp add: isGuessCorrect_lower)
  have l: "maxAttempts (gameState ctx) = Suc (length (guesses (gameState ctx)))"
    using last by simp
  show ?thesis
    using len v t m l
    by (simp add: submitGuess_def Let_def updateStats_def saveStats_def
        saveDailyChallengeCompleted_def split: prod.splits)
qed

lemma midGame_step:
  assumes m: "midGame k ctx" and k: "k < 5"
  shows "midGame (Suc k) (thenGuess ''crazy'' ctx)"
proof -
  have low: "toLowerCase ''crazy'' = ''crazy''" by code_simp
  have v: "isValidWord ''crazy'' (Some 5)" by code_simp
  have c: "\<not> isGuessCorrect ''crazy'' ''hello''" by code_simp
  obtain fs where "getGuessFeedback ''crazy'' ''hello'' = map Some fs"
    using getGuessFeedback_dense by blast
  then have t: "those (getGuessFeedback ''crazy'' ''hello'') = Some fs"
    by (simp add: those_map_Some)
  show ?thesis
    using m k v c t
    by (simp add: midGame_def thenGuess_def submitGuess_def Let_def low)
qed

lemma midGame_funpow:
  "midGame 0 ctx \<Longrightarrow> k \<le> 5 \<Longrightarrow> midGame k ((thenGuess ''crazy'' ^^ k) ctx)"
proof (induction k)
  case 0
  then show ?case by simp
next
  case (Suc k)
  then have "midGame k ((thenGuess ''crazy'' ^^ k) ctx)" by simp
  then have "midGame (Suc k) (thenGuess ''crazy'' ((thenGuess ''crazy'' ^^ k) ctx))"
    by (rule midGame_step) (use Suc.prems in simp)
  then show ?case by simp
qed

lemma lastTurn_midGame: "midGame 5 lastTurn"
proof -
  have "midGame 0 dailyContext"
    by (simp add: midGame_def dailyContext_def initialContext_def)
  then show ?thesis unfolding lastTurn_def by (rule midGame_funpow) simp
qed

theorem submitGuess_last_attempt_lost_witness:
  "length (toLowerCase ''crazy'') = wordLengthNum (wordLength (gameState lastTurn))
   \<and> list_all isLowerAlpha (toLowerCase ''crazy'')
   \<and> \<not> isGuessCorrect ''crazy'' (secretWord (gameState lastTurn))
   \<and> length (guesses (gameState lastTurn)) + 1 = maxAttempts (gameState lastTurn)
   \<and> gameStatus (gameState lastTurn) = Playing
   \<and> storeCalls lastTurn = []
   \<and> gameStatus (gameState (thenGuess ''crazy'' lastTurn)) = Lost
   \<and> storeCalls (thenGuess ''crazy'' lastTurn) = [UpdateStatsCall False 6, SaveDailyCall False Five 6]
   \<and> gamesPlayed (stats (thenGuess ''crazy'' lastTurn)) = 1"
proof -
  note m = lastTurn_midGame [unfolded midGame_def]
  have low: "toLowerCase ''crazy'' = ''crazy''" by code_simp
  have a: "length (toLowerCase ''crazy'') = wordLengthNum (wordLength (gameState lastTurn))"
    using m by (simp add: low)
  have b: "list_all isLowerAlpha (toLowerCase ''crazy'')" by code_simp
  have "\<not> isGuessCorrect ''crazy'' ''hello''" by code_simp
  then have c: "\<not> isGuessCorrect ''crazy'' (secretWord (gameState lastTurn))"
    using m by simp
  have d: "length (guesses (gameState lastTurn)) + 1 = maxAttempts (gameState lastTurn)"
    using m by simp
  from submitGuess_last_attempt_lost [OF a b c d, of someDay]
  obtain ctx' where s: "submitGuess ''crazy'' someDay lastTurn = Inr (True, ctx')"
    and r: "gameStatus (gameState ctx') = Lost"
       "storeCalls ctx' = storeCalls lastTurn
           @ UpdateStatsCall False (maxAttempts (gameState lastTurn))
           # (if gameMode (gameState lastTurn) = Daily
              then [SaveDailyCall False (wordLength (gameState lastTurn)) (maxAttempts (gameState lastTurn))]
              else [])"
       "gamesPlayed (stats ctx') = gamesPlayed (loadStats (storage lastTurn)) + 1"
    by blast
  have t: "thenGuess ''crazy'' lastTurn = ctx'" using s by (rule thenGuess_accepted)
  from a b c d m r show ?thesis unfolding t by (simp add: loadStats_def)
qed

text \<open>
  Claim C6 at a state of play.  After the guess \<open>crazy\<close> in the game on \<open>hello\<close>, the
  letter \<open>c\<close> is recorded as absent, under its lower-case form.  \<open>addLetter\<close> looks up
  the upper-case form, finds nothing, and appends the letter to the empty buffer, for the
  key \<open>C\<close> of the keyboards as for a lower-case \<open>c\<close>.
\<close>

theorem addLetter_accepts_absent_letter:
  "startGame [] [] someDay 0 Five Unlimited (Some ''hello'') initialContext = Some helloContext
   \<and> submitGuess ''crazy'' someDay helloContext = Inr (True, afterCrazy)
   \<and> gameStatus (gameState afterCrazy) = Playing
   \<and> currentGuess (gameState afterCrazy) = []
   \<and> keyboardStatus afterCrazy ''c'' = Some KeyAbsent
   \<and> keyboardStatus afterCrazy (toUpperCase ''c'') = None
   \<and> currentGuess (gameState (addLetter ''C'' afterCrazy)) = ''c''
   \<and> currentGuess (gameState (addLetter ''c'' afterCrazy)) = ''c''
   \<and> map_sum id (\<lambda>c. currentGuess (gameState c)) (handleKeyPress ''C'' someDay afterCrazy) = Inr ''c''"
proof -
  have "gameStatus (gameState afterCrazy) = Playing
   \<and> currentGuess (gameState afterCrazy) = []
   \<and> keyboardStatus afterCrazy ''c'' = Some KeyAbsent
   \<and> keyboardStatus afterCrazy (toUpperCase ''c'') = None
   \<and> currentGuess (gameState (addLetter ''C'' afterCrazy)) = ''c''
   \<and> currentGuess (gameState (addLetter ''c'' afterCrazy)) = ''c''
   \<and> map_sum id (\<lambda>c. currentGuess (gameState c)) (handleKeyPress ''C'' someDay afterCrazy) = Inr ''c''"
    by code_simp
  then show ?thesis using startGame_hello crazy_accepted by blast
qed

text \<open>
  The other guards of \<open>addLetter\<close> and the guard of \<open>removeLetter\<close> do what the claim
  says; so does the guard on absent letters for a key whose upper-case form is recorded.
\<close>

lemma addLetter_guards:
  "gameStatus (gameState ctx) \<noteq> Playing
     \<or> length (currentGuess (gameState ctx)) \<ge> wordLengthNum (wordLength (gameState ctx))
     \<or> keyboardStatus ctx (toUpperCase l) = Some KeyAbsent
   \<Longrightarrow> addLetter l ctx = ctx"
  by (auto simp: addLetter_def Let_def)

lemma addLetter_appends:
  "gameStatus (gameState ctx) = Playing \<Longrightarrow>
   length (currentGuess (gameState ctx)) < wordLengthNum (wordLength (gameState ctx)) \<Longrightarrow>
   keyboardStatus ctx (toUpperCase l) \<noteq> Some KeyAbsent \<Longrightarrow>
   addLetter l ctx = ctx\<lparr>gameState := (gameState ctx)\<lparr>currentGuess := currentGuess (gameState ctx) @ toLowerCase l\<rparr>\<rparr>"
  by (auto simp: addLetter_def Let_def)

lemma removeLetter_not_playing:
  "gameStatus (gameState ctx) \<noteq> Playing \<Longrightarrow> removeLetter ctx = ctx"
  by (simp add: removeLetter_def Let_def)


text \<open>The handler of the on-screen keyboard leaves a finished game alone.\<close>

lemma handleKeyPress_gate:
  "gameStatus (gameState ctx) \<noteq> Playing \<Longrightarrow> handleKeyPress key today ctx = Inr ctx"
  by (simp add: handleKeyPress_def)


end
